theory Spec2Isabelle
  imports Main
begin

section \<open>Column fit algorithm\<close>

text \<open>
  The column metadata handed to \<^verbatim>\<open>computeHiddenColumns\<close>:
  \<^verbatim>\<open>{index:number, min:number, priority:number, lock:boolean}\<close>.
  Pixel widths and priorities are integers here (the registry produces \<^verbatim>\<open>Math.ceil\<close>
  of a measured width, an integer hint or an integer default); \<^verbatim>\<open>index\<close> is the
  position of the header cell.  The field \<^verbatim>\<open>min\<close> is called \<open>min_w\<close>.
\<close>

record column =
  index :: nat
  min_w :: int
  priority :: int
  lock :: bool

text \<open>The solver's working copy: the same fields plus the mutable \<^verbatim>\<open>hidden\<close> flag.\<close>

record col = column +
  hidden :: bool

text \<open>
  \<^verbatim>\<open>Array.prototype.sort(cmp)\<close> is stable; with a consistent comparator its result is
  the stable insertion sort below.  \<open>cmp a b \<le> 0\<close> keeps \<open>a\<close> in front of \<open>b\<close>.
\<close>

fun insertBy :: "('a \<Rightarrow> 'a \<Rightarrow> int) \<Rightarrow> 'a \<Rightarrow> 'a list \<Rightarrow> 'a list" where
  "insertBy cmp x [] = [x]"
| "insertBy cmp x (y # ys) = (if cmp x y \<le> 0 then x # y # ys else y # insertBy cmp x ys)"

definition sortBy :: "('a \<Rightarrow> 'a \<Rightarrow> int) \<Rightarrow> 'a list \<Rightarrow> 'a list" where
  "sortBy cmp xs = foldr (insertBy cmp) xs []"

text \<open>\<^verbatim>\<open>(a, b) => b.priority - a.priority || b.min - a.min\<close>\<close>

definition cmpWorst :: "col \<Rightarrow> col \<Rightarrow> int" where
  "cmpWorst a b =
     (if priority b - priority a \<noteq> 0 then priority b - priority a else min_w b - min_w a)"

text \<open>\<^verbatim>\<open>(a, b) => a.priority - b.priority || a.min - b.min\<close>\<close>

definition cmpBest :: "col \<Rightarrow> col \<Rightarrow> int" where
  "cmpBest a b =
     (if priority a - priority b \<noteq> 0 then priority a - priority b else min_w a - min_w b)"

text \<open>\<^verbatim>\<open>cols.filter(c => !c.hidden).reduce((s, c) => s + c.min, 0)\<close>\<close>

definition sumMin :: "col list \<Rightarrow> int" where
  "sumMin cols = foldl (\<lambda>s c. s + min_w c) 0 (filter (\<lambda>c. \<not> hidden c) cols)"

text \<open>
  The arrays built by \<^verbatim>\<open>filter\<close> and \<^verbatim>\<open>sort\<close> hold references to the objects of
  \<^verbatim>\<open>cols\<close>; an object is named here by its position in \<^verbatim>\<open>cols\<close>, and writing its
  \<^verbatim>\<open>hidden\<close> field is an update at that position.
\<close>

definition setHidden :: "nat \<Rightarrow> bool \<Rightarrow> col list \<Rightarrow> col list" where
  "setHidden p b cols = cols[p := (cols ! p)\<lparr>hidden := b\<rparr>]"

definition positions :: "(col \<Rightarrow> bool) \<Rightarrow> col list \<Rightarrow> nat list" where
  "positions P cols = filter (\<lambda>p. P (cols ! p)) [0..<length cols]"

text \<open>
  \<^verbatim>\<open>cols.filter(c => !c.hidden && !c.lock && c.index !== 0).sort(...)[0]\<close>;
  \<open>None\<close> is the \<^verbatim>\<open>undefined\<close> of an empty array.
\<close>

definition candidate :: "col list \<Rightarrow> nat option" where
  "candidate cols =
     (case sortBy (\<lambda>p q. cmpWorst (cols ! p) (cols ! q))
             (positions (\<lambda>c. \<not> hidden c \<and> \<not> lock c \<and> index c \<noteq> 0) cols) of
        [] \<Rightarrow> None
      | p # _ \<Rightarrow> Some p)"

text \<open>
  \<^verbatim>\<open>while (sumMin() > available && guard-- > 0) { ...; if (!candidate) break;
  candidate.hidden = true; }\<close>
\<close>

fun shrinkLoop :: "nat \<Rightarrow> int \<Rightarrow> col list \<Rightarrow> col list" where
  "shrinkLoop 0 available cols = cols"
| "shrinkLoop (Suc guard) available cols =
     (if sumMin cols > available then
        (case candidate cols of
           None \<Rightarrow> cols
         | Some p \<Rightarrow> shrinkLoop guard available (setHidden p True cols))
      else cols)"

text \<open>
  The body of \<^verbatim>\<open>for (const c of hidden)\<close>: unhide, keep it if the sum still fits,
  hide again otherwise.
\<close>

definition growStep :: "int \<Rightarrow> nat \<Rightarrow> col list \<times> bool \<Rightarrow> col list \<times> bool" where
  "growStep available p st =
     (let cols' = setHidden p False (fst st)
      in if sumMin cols' \<le> available then (cols', True) else (fst st, snd st))"

definition growPass :: "int \<Rightarrow> col list \<Rightarrow> col list \<times> bool" where
  "growPass available cols =
     fold (growStep available)
       (sortBy (\<lambda>p q. cmpBest (cols ! p) (cols ! q)) (positions hidden cols))
       (cols, False)"

text \<open>\<^verbatim>\<open>while (changed && guard-- > 0) { changed = false; ... }\<close>\<close>

fun growLoop :: "nat \<Rightarrow> int \<Rightarrow> bool \<Rightarrow> col list \<Rightarrow> col list" where
  "growLoop 0 available changed cols = cols"
| "growLoop (Suc guard) available changed cols =
     (if changed then
        (case growPass available cols of (cols', changed') \<Rightarrow>
           growLoop guard available changed' cols')
      else cols)"

definition initCols :: "column list \<Rightarrow> col list" where
  "initCols columnsMeta =
     map (\<lambda>c. \<lparr>index = index c, min_w = min_w c, priority = priority c, lock = lock c,
               hidden = False\<rparr>) columnsMeta"

definition solveCols :: "column list \<Rightarrow> int \<Rightarrow> col list" where
  "solveCols columnsMeta available =
     growLoop 200 available True (shrinkLoop 200 available (initCols columnsMeta))"

definition computeHiddenColumns :: "column list \<Rightarrow> int \<Rightarrow> nat set" where
  "computeHiddenColumns columnsMeta available =
     set (map index (filter hidden (solveCols columnsMeta available)))"

text \<open>The sum of the minimum widths of the columns whose index is not in a hidden-set.\<close>

definition survivingSum :: "column list \<Rightarrow> nat set \<Rightarrow> int" where
  "survivingSum columnsMeta H = sum_list (map min_w (filter (\<lambda>c. index c \<notin> H) columnsMeta))"

text \<open>The columns of the scenarios: control, A, B, C, D.\<close>

definition scenarioColumns :: "column list" where
  "scenarioColumns =
     [\<lparr>index = 0, min_w = 46, priority = 1, lock = True\<rparr>,
      \<lparr>index = 1, min_w = 200, priority = 1, lock = True\<rparr>,
      \<lparr>index = 2, min_w = 160, priority = 2, lock = False\<rparr>,
      \<lparr>index = 3, min_w = 130, priority = 3, lock = False\<rparr>,
      \<lparr>index = 4, min_w = 120, priority = 4, lock = False\<rparr>]"

subsection \<open>Notions used to state and prove the solver's properties\<close>

text \<open>A column the shrink phase may pick: unlocked and not the control column.\<close>

definition hideable :: "'a column_scheme \<Rightarrow> bool" where
  "hideable c \<longleftrightarrow> \<not> lock c \<and> index c \<noteq> 0"

text \<open>A set of indices that names unlocked, non-control columns only.\<close>

definition onlyUnlocked :: "column list \<Rightarrow> nat set \<Rightarrow> bool" where
  "onlyUnlocked columnsMeta S \<longleftrightarrow> list_all (\<lambda>c. index c \<in> S \<longrightarrow> hideable c) columnsMeta"

text \<open>The working copy agrees with the input on everything but \<^verbatim>\<open>hidden\<close>.\<close>

definition sameCols :: "column list \<Rightarrow> col list \<Rightarrow> bool" where
  "sameCols m cols \<longleftrightarrow>
     length cols = length m \<and>
     (\<forall>p < length m. index (cols ! p) = index (m ! p) \<and> min_w (cols ! p) = min_w (m ! p) \<and>
        lock (cols ! p) = lock (m ! p))"

definition hidOk :: "col list \<Rightarrow> bool" where
  "hidOk cols \<longleftrightarrow> (\<forall>p < length cols. hidden (cols ! p) \<longrightarrow> hideable (cols ! p))"

definition hiddenCount :: "col list \<Rightarrow> nat" where
  "hiddenCount cols = sum_list (map (\<lambda>c. if hidden c then 1 else 0) cols)"

definition visHideCount :: "col list \<Rightarrow> nat" where
  "visHideCount cols = sum_list (map (\<lambda>c. if \<not> hidden c \<and> hideable c then 1 else 0) cols)"

text \<open>No hidden column can be shown again without exceeding the available width.\<close>

definition minimalCols :: "col list \<Rightarrow> int \<Rightarrow> bool" where
  "minimalCols cols a \<longleftrightarrow>
     (\<forall>p < length cols. hidden (cols ! p) \<longrightarrow> \<not> sumMin (setHidden p False cols) \<le> a)"

text \<open>
  Two inputs on which the shrink phase ends without a fit although one exists: 201
  hideable columns of 140px beside a 46px control column (the loop stops after 200
  rounds), and columns with negative widths (hiding them makes the sum larger).
\<close>

definition wideColumns :: "column list" where
  "wideColumns =
     \<lparr>index = 0, min_w = 46, priority = 1, lock = True\<rparr> #
     map (\<lambda>i. \<lparr>index = i, min_w = 140, priority = int i + 1, lock = False\<rparr>) [1..<202]"

definition negativeColumns :: "column list" where
  "negativeColumns =
     [\<lparr>index = 0, min_w = 0, priority = 1, lock = True\<rparr>,
      \<lparr>index = 1, min_w = 5, priority = 2, lock = False\<rparr>,
      \<lparr>index = 2, min_w = - 10, priority = 5, lock = False\<rparr>,
      \<lparr>index = 3, min_w = - 10, priority = 4, lock = False\<rparr>]"

section \<open>The table and its controller\<close>

subsection \<open>The host table\<close>

text \<open>
  The part of the DOM the controller reads and writes.  A class the code tests is a flag
  of the element: \<open>ctrl\<close> (every class of \<^verbatim>\<open>classNames.control\<close>), \<open>hide\<close>
  (\<^verbatim>\<open>classNames.hide\<close>), \<open>isDetails\<close> (\<^verbatim>\<open>classNames.details\<close>), \<open>hasRoot\<close>
  (\<^verbatim>\<open>classNames.root\<close>).  A header cell also carries what \<^verbatim>\<open>_buildColumns\<close> reads:
  \<open>priorityAttr\<close> is \<^verbatim>\<open>Number(data-priority)\<close> (\<open>None\<close> when the attribute is absent
  or empty), \<open>minAttr\<close> is \<^verbatim>\<open>Number(data-min) || 0\<close>, \<open>measured\<close> is
  \<^verbatim>\<open>Math.ceil(clientWidth || offsetWidth || 0)\<close>, \<open>labelAttr\<close> is \<^verbatim>\<open>data-label\<close>
  (\<open>None\<close> when absent or empty).  Attribute values that are not integers are outside
  the model, and so are the attributes the controller writes and never reads
  (\<^verbatim>\<open>aria-hidden\<close>, \<^verbatim>\<open>scope\<close>, \<^verbatim>\<open>title\<close>, \<^verbatim>\<open>role\<close>, \<^verbatim>\<open>aria-live\<close>).
\<close>

record cell =
  ctrl :: bool
  hide :: bool
  colSpan :: nat
  rowSpan :: nat
  textContent :: string
  innerHTML :: string
  priorityAttr :: "int option"
  minAttr :: int
  labelAttr :: "string option"
  measured :: int

text \<open>
  The row key of \<^verbatim>\<open>_rowKeyMap\<close>: the \<^verbatim>\<open>data-ctbl-key\<close> attribute, or the next number
  of \<^verbatim>\<open>_rowKeySeq\<close>.  (\<^verbatim>\<open>_detailsIdForRow\<close> is only called for a row that has its
  entry.)
\<close>

datatype rkey = KeyAttr string | KeySeq nat

text \<open>
  The toggle button.  \<open>face\<close> is its \<^verbatim>\<open>innerHTML\<close>: the expand icon with the toggle
  title (as created), the expand icon with \<^verbatim>\<open>strings.show\<close> (after a collapse), the
  collapse icon with \<^verbatim>\<open>strings.hide\<close> (after an expand).  \<open>hiddenInLabel\<close> is the
  \<^verbatim>\<open>aria-label\<close>: the title alone, or the title with the number of hidden columns.
\<close>

datatype face = FaceTitle | FaceShow | FaceHide

record button =
  ariaExpanded :: bool
  visibility :: bool
  hiddenInLabel :: "nat option"
  face :: face
  ariaControls :: rkey

text \<open>
  The inner container of a details row (\<^verbatim>\<open>classNames.detailsInner\<close>): its
  \<^verbatim>\<open>aria-label\<close> and its children, which are a node of the custom renderer (a node
  from outside the table, or a cell taken out of a body row), a string of the custom
  renderer, or the default list of name and value pairs.
\<close>

datatype regionLabel = Unlabelled | DetailsFor string | RowDetails

datatype content =
  CNode string | CCell cell | CHtml string | CItems "(string \<times> string) list"

record panel =
  regionLabel :: regionLabel
  content :: content

text \<open>
  A row of a body section, a data row or a details row.  \<open>btn\<close> is what
  \<^verbatim>\<open>row.querySelector(toggleSelector)\<close> finds, \<open>wrap\<close> what
  \<^verbatim>\<open>querySelector("." + detailsInner)\<close> finds, \<open>hiddenAttr\<close> the \<^verbatim>\<open>hidden\<close> property,
  \<open>keyAttr\<close> the attribute \<^verbatim>\<open>data-ctbl-key\<close> (\<open>None\<close> when absent or empty),
  \<open>detailsId\<close> the key in the \<^verbatim>\<open>id\<close> of a details row.  Button and container lie
  in the first cell of their row, where \<^verbatim>\<open>_mountRowsInBody\<close> puts them.
\<close>

record tr =
  isDetails :: bool
  cells :: "cell list"
  btn :: "button option"
  hiddenAttr :: bool
  wrap :: "panel option"
  keyAttr :: "string option"
  detailsId :: "rkey option"

text \<open>
  The table element with the measurements \<^verbatim>\<open>_availableWidth\<close> takes: the client
  widths of the wrapper (the parent element) and of the table, \<^verbatim>\<open>window.innerWidth\<close>,
  and \<^verbatim>\<open>isVisible\<close> of wrapper and table.  \<open>tHead\<close> is the list of the header's rows.
\<close>

record table =
  hasRoot :: bool
  styleWidth :: string
  styleTableLayout :: string
  tHead :: "cell list list option"
  tBodies :: "tr list list"
  wrapperClientWidth :: int
  tableClientWidth :: int
  windowInnerWidth :: int
  wrapperVisible :: bool
  tableVisible :: bool

subsection \<open>Options, events, errors\<close>

text \<open>A row is named by its body section and its position there.\<close>

type_synonym rowRef = "nat \<times> nat"

text \<open>
  What a call of the caller's \<^verbatim>\<open>detailsRender\<close> does.  It returns a node, a string
  or anything else, or it throws.  Being code of the caller it may also write to what
  it is handed: to the row and so to the table, to the \<^verbatim>\<open>cells\<close> array, and to the
  column objects in \<^verbatim>\<open>hiddenCols\<close>, which are those of \<^verbatim>\<open>columnsMeta\<close>.  When the
  call ends, \<open>tableLeft\<close> is the table, \<open>cellsLeft\<close> the \<^verbatim>\<open>cells\<close> array (its
  elements as they are then) and \<open>columnsLeft\<close> the list \<^verbatim>\<open>columnsMeta\<close>.  The
  function is applied to \<^verbatim>\<open>row\<close>, \<^verbatim>\<open>hiddenCols\<close> and \<^verbatim>\<open>cells\<close>, and to the table and
  \<^verbatim>\<open>columnsMeta\<close> as they are at the call.  Rows are named by their places, so a
  renderer is taken to add, remove and move no row; and it is taken to call no method
  of the controller and to leave its options alone.

  A node the renderer returns is given by what \<^verbatim>\<open>wrap.appendChild(result)\<close> does with
  it.  \<open>Detached d\<close> is a node from outside the table: it becomes the child of the
  container.  \<open>Unappendable\<close> is a node \<^verbatim>\<open>appendChild\<close> refuses with a
  \<^verbatim>\<open>HierarchyRequestError\<close>: a document, an attribute node, or an element that
  contains the container (its row, the body section, the table).  \<open>BodyCell ref i\<close> is
  cell \<open>i\<close> of the body row at \<open>ref\<close>, which \<^verbatim>\<open>appendChild\<close> takes out of its row.
  Other nodes of the table are outside the model.
\<close>

datatype node = Detached string | Unappendable | BodyCell rowRef nat

datatype rendered = RNode node | RString string | ROther | RThrows

record rendering =
  returned :: rendered
  cellsLeft :: "cell list"
  tableLeft :: table
  columnsLeft :: "column list"

record options =
  controlWidth :: int
  minWidthDefault :: int
  tableLayout :: string
  deferWhenHidden :: bool
  detailsRender ::
    "(tr \<Rightarrow> column list \<Rightarrow> cell list \<Rightarrow> table \<Rightarrow> column list \<Rightarrow> rendering) option"

datatype event =
  Expand rowRef | Collapse rowRef | Toggle rowRef bool | Refit bool bool | Destroy

text \<open>
  The exceptions: those \<^verbatim>\<open>_resolveTargets\<close> and \<^verbatim>\<open>_initOnce\<close> throw, what the
  renderer throws, the \<^verbatim>\<open>HierarchyRequestError\<close> of \<^verbatim>\<open>appendChild\<close>, the
  \<^verbatim>\<open>TypeError\<close> of \<^verbatim>\<open>Number\<close>, and what the conversion code of an argument throws.
\<close>

datatype error =
  TargetNotFound | TargetNotTable | HeadRequired | BodyRequired | RendererThrew
  | HierarchyRequestError | TypeError | ConversionThrew

text \<open>
  The controller's fields.  \<^verbatim>\<open>this.headerRow\<close>, \<^verbatim>\<open>this.tbodies\<close> and the \<^verbatim>\<open>th\<close> of a
  column are references into the table: they are read from \<open>table\<close>, the header row as
  the first row of \<open>tHead\<close> and the \<^verbatim>\<open>th\<close> of a column as the header cell at the
  column's index (where \<^verbatim>\<open>_buildColumns\<close> found it).  \<open>wrapperSet\<close> says that
  \<^verbatim>\<open>this.wrapper\<close> is assigned, \<open>observing\<close> that the observers are connected,
  \<open>listening\<close> that the click and key handlers are installed, \<open>coreStyles\<close> that the
  document holds the core style element.  \<open>rowKeyMap\<close> is \<^verbatim>\<open>_rowKeyMap\<close>: the keys of
  the data rows it has an entry for, in the order of the rows (the controller meets the
  data rows in that order, and only it adds rows here).  \<open>events\<close> is the log of what
  \<^verbatim>\<open>emit\<close> was called with (\<^verbatim>\<open>_emit\<close> swallows what a handler throws).
\<close>

record ctl =
  table :: table
  options :: options
  columnsMeta :: "column list"
  unsupportedSpan :: bool
  destroyed :: bool
  insertedControl :: bool
  rowKeyMap :: "rkey list"
  rowKeySeq :: nat
  wrapperSet :: bool
  observing :: bool
  listening :: bool
  coreStyles :: bool
  events :: "event list"

definition emit :: "event \<Rightarrow> ctl \<Rightarrow> ctl" where
  "emit e c = c\<lparr>events := events c @ [e]\<rparr>"

subsection \<open>Reading and writing the table\<close>

definition headerCells :: "table \<Rightarrow> cell list" where
  "headerCells t = (case tHead t of Some (r # rs) \<Rightarrow> r | _ \<Rightarrow> [])"

definition setHeaderCells :: "cell list \<Rightarrow> table \<Rightarrow> table" where
  "setHeaderCells cs t =
     t\<lparr>tHead := (case tHead t of Some (r # rs) \<Rightarrow> Some (cs # rs) | h \<Rightarrow> h)\<rparr>"

text \<open>\<^verbatim>\<open>const x = xs[i]; if (x) ...\<close>: nothing happens where the list has no such element.\<close>

definition updAt :: "nat \<Rightarrow> ('a \<Rightarrow> 'a) \<Rightarrow> 'a list \<Rightarrow> 'a list" where
  "updAt i f xs = (if i < length xs then xs[i := f (xs ! i)] else xs)"

definition rowAt :: "table \<Rightarrow> rowRef \<Rightarrow> tr option" where
  "rowAt t ref =
     (if fst ref < length (tBodies t) \<and> snd ref < length (tBodies t ! fst ref)
      then Some (tBodies t ! fst ref ! snd ref) else None)"

definition setRow :: "rowRef \<Rightarrow> (tr \<Rightarrow> tr) \<Rightarrow> table \<Rightarrow> table" where
  "setRow ref f t = t\<lparr>tBodies := updAt (fst ref) (updAt (snd ref) f) (tBodies t)\<rparr>"

definition mapRows :: "(tr \<Rightarrow> tr) \<Rightarrow> table \<Rightarrow> table" where
  "mapRows f t = t\<lparr>tBodies := map (map f) (tBodies t)\<rparr>"

text \<open>
  \<^verbatim>\<open>this.tbodies.flatMap(tb => Array.from(tb.rows).filter(r => !r.classList.contains(details)))\<close>,
  as references.
\<close>

definition dataRowRefs :: "table \<Rightarrow> rowRef list" where
  "dataRowRefs t =
     concat (map (\<lambda>b. map (\<lambda>r. (b, r))
                        (filter (\<lambda>r. \<not> isDetails (tBodies t ! b ! r)) [0..<length (tBodies t ! b)]))
                 [0..<length (tBodies t)])"

text \<open>\<^verbatim>\<open>String.prototype.trim\<close>, for the ASCII white space.\<close>

definition isSpace :: "char \<Rightarrow> bool" where
  "isSpace ch \<longleftrightarrow> ch \<in> set [CHR '' '', CHR 0x09, CHR 0x0A, CHR 0x0B, CHR 0x0C, CHR 0x0D]"

definition trim :: "string \<Rightarrow> string" where
  "trim s = rev (dropWhile isSpace (rev (dropWhile isSpace s)))"

subsection \<open>The refit pass\<close>

text \<open>
  \<^verbatim>\<open>_availableWidth\<close>.  Before \<^verbatim>\<open>_observe\<close> has assigned \<^verbatim>\<open>this.wrapper\<close> the wrapper
  has no width and \<^verbatim>\<open>isVisible(undefined)\<close> is false.
\<close>

definition availableWidth :: "ctl \<Rightarrow> int" where
  "availableWidth c =
     (let t = table c;
          w = (if wrapperSet c \<and> wrapperClientWidth t \<noteq> 0 then wrapperClientWidth t
               else if tableClientWidth t \<noteq> 0 then tableClientWidth t
               else windowInnerWidth t);
          viewport = (if windowInnerWidth t \<noteq> 0 then windowInnerWidth t else 1024);
          visible = (wrapperSet c \<and> wrapperVisible t \<and> tableVisible t)
      in if \<not> visible \<and> deferWhenHidden (options c) then viewport
         else if w > 0 then w else viewport)"

text \<open>The \<^verbatim>\<open>meta\<close> of \<^verbatim>\<open>_refit\<close>: the lock flag is computed again.\<close>

definition refitMeta :: "ctl \<Rightarrow> column list" where
  "refitMeta c =
     map (\<lambda>m. \<lparr>index = index m, min_w = min_w m, priority = priority m,
               lock = (index m = 0 \<or> priority m = 1)\<rparr>) (columnsMeta c)"

text \<open>
  \<^verbatim>\<open>for (const col of this.columnsMeta) { const td = cells[col.index];
  if (td) td.classList.toggle(hide, hiddenSet.has(col.index)); }\<close>
\<close>

definition markCells :: "column list \<Rightarrow> (nat \<Rightarrow> bool) \<Rightarrow> cell list \<Rightarrow> cell list" where
  "markCells cols h cs = foldl (\<lambda>xs m. updAt (index m) (\<lambda>x. x\<lparr>hide := h (index m)\<rparr>) xs) cs cols"

definition syncDetailsColspan :: "ctl \<Rightarrow> ctl" where
  "syncDetailsColspan c =
     (let span = length (headerCells (table c))
      in c\<lparr>table := mapRows (\<lambda>row. if isDetails row
                                      then row\<lparr>cells := updAt 0 (\<lambda>x. x\<lparr>colSpan := span\<rparr>) (cells row)\<rparr>
                                      else row) (table c)\<rparr>)"

definition applyVisibility :: "nat set \<Rightarrow> ctl \<Rightarrow> ctl" where
  "applyVisibility hiddenSet c =
     (let cols = columnsMeta c;
          t1 = setHeaderCells (markCells cols (\<lambda>i. i \<in> hiddenSet) (headerCells (table c))) (table c);
          t2 = mapRows (\<lambda>row. if isDetails row then row
                              else row\<lparr>cells := markCells cols (\<lambda>i. i \<in> hiddenSet) (cells row)\<rparr>) t1
      in syncDetailsColspan (c\<lparr>table := t2\<rparr>))"

text \<open>\<^verbatim>\<open>_firstVisibleCellText\<close>: the loop over \<^verbatim>\<open>columnsMeta\<close> with its early return.\<close>

fun firstVisibleCellText :: "column list \<Rightarrow> tr \<Rightarrow> nat set \<Rightarrow> string" where
  "firstVisibleCellText [] row hiddenSet = []"
| "firstVisibleCellText (m # ms) row hiddenSet =
     (if index m = 0 then firstVisibleCellText ms row hiddenSet
      else if index m \<notin> hiddenSet \<and> index m < length (cells row)
              \<and> trim (textContent (cells row ! index m)) \<noteq> []
           then trim (textContent (cells row ! index m))
      else firstVisibleCellText ms row hiddenSet)"

text \<open>
  The default list: one pair per hidden non-control column, the label
  \<^verbatim>\<open>(th.getAttribute(label) || th.textContent || "").trim()\<close> followed by \<^verbatim>\<open>": "\<close> when
  it is not empty, and \<^verbatim>\<open>cells[col.index]?.innerHTML ?? ""\<close>, where \<^verbatim>\<open>cells\<close> is the
  array made before the renderer was called.
\<close>

definition thLabel :: "table \<Rightarrow> nat \<Rightarrow> string" where
  "thLabel t i =
     (if i < length (headerCells t) then
        (case labelAttr (headerCells t ! i) of
           Some l \<Rightarrow> trim l
         | None \<Rightarrow> trim (textContent (headerCells t ! i)))
      else [])"

definition defaultItems :: "ctl \<Rightarrow> cell list \<Rightarrow> nat set \<Rightarrow> (string \<times> string) list" where
  "defaultItems c cs hiddenSet =
     map (\<lambda>m. (if thLabel (table c) (index m) \<noteq> [] then thLabel (table c) (index m) @ '': '' else [],
               if index m < length cs then innerHTML (cs ! index m) else []))
         (filter (\<lambda>m. index m \<noteq> 0 \<and> index m \<in> hiddenSet) (columnsMeta c))"

text \<open>
  Writing to the container of the details row after \<open>ref\<close>: \<open>setWrap\<close> replaces
  label and children, \<open>setContent\<close> the children of the container there is.
\<close>

definition setWrap :: "rowRef \<Rightarrow> panel \<Rightarrow> ctl \<Rightarrow> ctl" where
  "setWrap ref w c =
     c\<lparr>table := setRow (fst ref, Suc (snd ref)) (\<lambda>d. d\<lparr>wrap := Some w\<rparr>) (table c)\<rparr>"

definition setContent :: "rowRef \<Rightarrow> content \<Rightarrow> ctl \<Rightarrow> ctl" where
  "setContent ref x c =
     c\<lparr>table := setRow (fst ref, Suc (snd ref))
                   (\<lambda>d. d\<lparr>wrap := map_option (\<lambda>w. w\<lparr>content := x\<rparr>) (wrap d)\<rparr>) (table c)\<rparr>"

text \<open>
  \<^verbatim>\<open>wrap.innerHTML = ""\<close> and the \<^verbatim>\<open>aria-label\<close>: \<^verbatim>\<open>Details for\<close> the first visible
  cell text, or \<^verbatim>\<open>Row details\<close>.
\<close>

definition emptyPanel :: "ctl \<Rightarrow> tr \<Rightarrow> nat set \<Rightarrow> panel" where
  "emptyPanel c row hiddenSet =
     (let primary = firstVisibleCellText (columnsMeta c) row hiddenSet
      in \<lparr>regionLabel = (if primary \<noteq> [] then DetailsFor primary else RowDetails),
          content = CItems []\<rparr>)"

text \<open>
  \<^verbatim>\<open>wrap.appendChild(result)\<close> for the container of the details row after \<open>ref\<close>.  A
  cell of a body row leaves its row, and with the first cell go the button or the
  container that lie in it; the cell that holds the container itself is refused.
  (A \<open>BodyCell\<close> that names no cell of the table stands for an empty node from
  outside.)
\<close>

definition takeCell :: "nat \<Rightarrow> tr \<Rightarrow> tr" where
  "takeCell i r =
     r\<lparr>cells := take i (cells r) @ drop (Suc i) (cells r),
       btn := (if i = 0 then None else btn r),
       wrap := (if i = 0 then None else wrap r)\<rparr>"

definition appendChild :: "rowRef \<Rightarrow> node \<Rightarrow> ctl \<Rightarrow> ctl \<times> error option" where
  "appendChild ref n c =
     (case n of
        Detached d \<Rightarrow> (setContent ref (CNode d) c, None)
      | Unappendable \<Rightarrow> (c, Some HierarchyRequestError)
      | BodyCell ref' i \<Rightarrow>
          (case rowAt (table c) ref' of
             None \<Rightarrow> (setContent ref (CNode []) c, None)
           | Some r \<Rightarrow>
               if length (cells r) \<le> i then (setContent ref (CNode []) c, None)
               else if ref' = (fst ref, Suc (snd ref)) \<and> i = 0
               then (c, Some HierarchyRequestError)
               else (setContent ref (CCell (cells r ! i))
                       (c\<lparr>table := setRow ref' (takeCell i) (table c)\<rparr>), None)))"

text \<open>
  \<^verbatim>\<open>_renderDetailsForRow(row, detailsRow, hiddenSet)\<close>, the details row being the row
  after \<open>row\<close> (every caller passes \<^verbatim>\<open>row.nextElementSibling\<close>).  The result is the state
  the call leaves and the exception it ends with, if any: neither the call of
  \<^verbatim>\<open>this.options.detailsRender\<close> nor \<^verbatim>\<open>wrap.appendChild(result)\<close> stands in a \<^verbatim>\<open>try\<close>.
\<close>

definition renderDetailsForRow :: "rowRef \<Rightarrow> nat set \<Rightarrow> ctl \<Rightarrow> ctl \<times> error option" where
  "renderDetailsForRow ref hiddenSet c =
     (case (rowAt (table c) ref, rowAt (table c) (fst ref, Suc (snd ref))) of
        (Some row, Some detailsRow) \<Rightarrow>
          (case wrap detailsRow of
             None \<Rightarrow> (c, None)
           | Some w \<Rightarrow>
               (let c0 = setWrap ref (emptyPanel c row hiddenSet) c
                in case detailsRender (options c) of
                     None \<Rightarrow>
                       (setContent ref (CItems (defaultItems c0 (cells row) hiddenSet)) c0, None)
                   | Some f \<Rightarrow>
                       (let out = f row (filter (\<lambda>m. index m \<in> hiddenSet \<and> index m \<noteq> 0)
                                           (columnsMeta c))
                                    (cells row) (table c0) (columnsMeta c0);
                            c1 = c0\<lparr>table := tableLeft out, columnsMeta := columnsLeft out\<rparr>
                        in case returned out of
                             RThrows \<Rightarrow> (c1, Some RendererThrew)
                           | RNode n \<Rightarrow> appendChild ref n c1
                           | RString s \<Rightarrow> (setContent ref (CHtml s) c1, None)
                           | ROther \<Rightarrow>
                               (setContent ref (CItems (defaultItems c1 (cellsLeft out) hiddenSet))
                                  c1, None))))
      | _ \<Rightarrow> (c, None))"

text \<open>
  The body of the row loop of \<^verbatim>\<open>_updateTogglesVisibility\<close> for one data row, and the
  loop, which an exception leaves at once.
\<close>

definition updateToggleOfRow :: "bool \<Rightarrow> nat set \<Rightarrow> rowRef \<Rightarrow> ctl \<Rightarrow> ctl \<times> error option" where
  "updateToggleOfRow anyHidden hiddenSet ref c =
     (case rowAt (table c) ref of
        None \<Rightarrow> (c, None)
      | Some row \<Rightarrow>
          (let c1 = c\<lparr>table := setRow ref
                        (\<lambda>r. r\<lparr>cells := updAt 0 (\<lambda>x. x\<lparr>hide := \<not> anyHidden\<rparr>) (cells r)\<rparr>) (table c)\<rparr>
           in case btn row of
                None \<Rightarrow> (c1, None)
              | Some b \<Rightarrow>
                  (let hiddenCount = length (filter (\<lambda>m. index m \<in> hiddenSet \<and> index m \<noteq> 0)
                                                (columnsMeta c));
                       b' = b\<lparr>visibility := anyHidden,
                              hiddenInLabel := (if anyHidden then Some hiddenCount else None)\<rparr>;
                       c2 = c1\<lparr>table := setRow ref (\<lambda>r. r\<lparr>btn := Some b'\<rparr>) (table c1)\<rparr>
                   in case rowAt (table c2) (fst ref, Suc (snd ref)) of
                        None \<Rightarrow> (c2, None)
                      | Some details \<Rightarrow>
                          if isDetails details \<and> \<not> hiddenAttr details \<and> ariaExpanded b
                          then renderDetailsForRow ref hiddenSet c2
                          else (c2, None))))"

fun forRows :: "(rowRef \<Rightarrow> ctl \<Rightarrow> ctl \<times> error option) \<Rightarrow> rowRef list \<Rightarrow> ctl \<Rightarrow> ctl \<times> error option"
  where
  "forRows body [] c = (c, None)"
| "forRows body (ref # refs) c =
     (case body ref c of
        (c', Some e) \<Rightarrow> (c', Some e)
      | (c', None) \<Rightarrow> forRows body refs c')"

definition updateTogglesVisibility :: "bool \<Rightarrow> nat set \<Rightarrow> ctl \<Rightarrow> ctl \<times> error option" where
  "updateTogglesVisibility anyHidden hiddenSet c =
     (let c1 = c\<lparr>table := setHeaderCells
                   (updAt 0 (\<lambda>x. x\<lparr>hide := \<not> anyHidden\<rparr>) (headerCells (table c))) (table c)\<rparr>
      in forRows (updateToggleOfRow anyHidden hiddenSet) (dataRowRefs (table c1)) c1)"

text \<open>\<^verbatim>\<open>Array.from(hiddenSet).some(i => i !== 0)\<close>\<close>

definition anyHiddenIn :: "nat set \<Rightarrow> bool" where
  "anyHiddenIn hiddenSet \<longleftrightarrow> (\<exists>i \<in> hiddenSet. i \<noteq> 0)"

definition refitHiddenSet :: "ctl \<Rightarrow> nat set" where
  "refitHiddenSet c = computeHiddenColumns (refitMeta c) (availableWidth c)"

definition refit :: "bool \<Rightarrow> ctl \<Rightarrow> ctl \<times> error option" where
  "refit initial c =
     (if unsupportedSpan c then (c, None)
      else
        (let hiddenSet = refitHiddenSet c;
             c1 = applyVisibility hiddenSet c;
             anyHidden = anyHiddenIn hiddenSet
         in case updateTogglesVisibility anyHidden hiddenSet c1 of
              (c2, Some e) \<Rightarrow> (c2, Some e)
            | (c2, None) \<Rightarrow> (emit (Refit initial anyHidden) c2, None)))"

subsection \<open>Row operations\<close>

text \<open>
  The hidden-set \<^verbatim>\<open>toggle\<close> reads back from the header:
  \<^verbatim>\<open>columnsMeta.filter(c => c.th.classList.contains(hide)).map(c => c.index)\<close>.
\<close>

definition thHidden :: "table \<Rightarrow> nat \<Rightarrow> bool" where
  "thHidden t i \<longleftrightarrow> i < length (headerCells t) \<and> hide (headerCells t ! i)"

definition headerHiddenSet :: "ctl \<Rightarrow> nat set" where
  "headerHiddenSet c = set (map index (filter (\<lambda>m. thHidden (table c) (index m)) (columnsMeta c)))"

text \<open>
  \<^verbatim>\<open>toggle(row)\<close>.  A reference to no row of the bodies stands for a \<^verbatim>\<open>row\<close> that is
  null.  The function asks nowhere whether a column is hidden.
\<close>

definition toggle :: "rowRef \<Rightarrow> ctl \<Rightarrow> ctl \<times> error option" where
  "toggle ref c =
     (case rowAt (table c) ref of
        None \<Rightarrow> (c, None)
      | Some row \<Rightarrow>
          if isDetails row then (c, None)
          else
            (case (btn row, rowAt (table c) (fst ref, Suc (snd ref))) of
               (Some b, Some details) \<Rightarrow>
                 if \<not> isDetails details then (c, None)
                 else if ariaExpanded b then
                   (let t1 = setRow ref (\<lambda>r. r\<lparr>btn := Some (b\<lparr>ariaExpanded := False, face := FaceShow\<rparr>)\<rparr>)
                               (table c);
                        t2 = setRow (fst ref, Suc (snd ref)) (\<lambda>d. d\<lparr>hiddenAttr := True\<rparr>) t1
                    in (emit (Toggle ref False) (emit (Collapse ref) (c\<lparr>table := t2\<rparr>)), None))
                 else
                   (let c1 = c\<lparr>table := setRow ref
                                 (\<lambda>r. r\<lparr>btn := Some (b\<lparr>ariaExpanded := True, face := FaceHide\<rparr>)\<rparr>)
                                 (table c)\<rparr>
                    in case renderDetailsForRow ref (headerHiddenSet c1) c1 of
                         (c2, Some e) \<Rightarrow> (c2, Some e)
                       | (c2, None) \<Rightarrow>
                           (emit (Toggle ref True) (emit (Expand ref)
                              (c2\<lparr>table := setRow (fst ref, Suc (snd ref))
                                              (\<lambda>d. d\<lparr>hiddenAttr := False\<rparr>) (table c2)\<rparr>)), None))
             | _ \<Rightarrow> (c, None)))"

definition isExpanded :: "table \<Rightarrow> rowRef \<Rightarrow> bool option" where
  "isExpanded t ref =
     (case rowAt t ref of
        None \<Rightarrow> None
      | Some row \<Rightarrow> (case btn row of None \<Rightarrow> None | Some b \<Rightarrow> Some (ariaExpanded b)))"

text \<open>
  \<^verbatim>\<open>expandAll\<close> returns at once unless a non-control column is hidden; \<^verbatim>\<open>collapseAll\<close>
  has no such test.
\<close>

definition expandAll :: "ctl \<Rightarrow> ctl \<times> error option" where
  "expandAll c =
     (if \<not> list_ex (\<lambda>m. index m \<noteq> 0 \<and> thHidden (table c) (index m)) (columnsMeta c) then (c, None)
      else forRows (\<lambda>ref s. if isExpanded (table s) ref = Some False then toggle ref s else (s, None))
             (dataRowRefs (table c)) c)"

definition collapseAll :: "ctl \<Rightarrow> ctl \<times> error option" where
  "collapseAll c =
     forRows (\<lambda>ref s. if isExpanded (table s) ref = Some True then toggle ref s else (s, None))
       (dataRowRefs (table c)) c"

text \<open>
  The argument of \<^verbatim>\<open>expandRow\<close> and \<^verbatim>\<open>collapseRow\<close> is any value: a row element
  (\<open>RowElement\<close>, a row of the controller's bodies named by its place), or a value
  that is no \<^verbatim>\<open>HTMLTableRowElement\<close>, a primitive or an object.  A Number is an
  integer, another finite number, \<^verbatim>\<open>NaN\<close> or an infinity.  A string is given by the
  case \<^verbatim>\<open>Number\<close> makes of it: empty or white space only, a numeric literal (with its
  value), or anything else.  An object is given by its conversion to a primitive
  (\<^verbatim>\<open>Symbol.toPrimitive\<close>, \<^verbatim>\<open>valueOf\<close>, \<^verbatim>\<open>toString\<close>), which is code that may change the
  state and ends with a primitive or with an exception.
\<close>

datatype jsNumber = Integer int | Fractional | NaN | Infinite

datatype jsString = Blank | Numeric jsNumber | NonNumeric

datatype primitive =
  PUndefined | PNull | PBoolean bool | PNumber jsNumber | PString jsString | PBigInt int | PSymbol

datatype jsValue = Primitive primitive | Object "ctl \<Rightarrow> ctl \<times> primitive option"

datatype rowArg = RowElement rowRef | Other jsValue

text \<open>
  \<^verbatim>\<open>Number(value)\<close>.  A BigInt becomes the nearest double, ties to even: with \<open>e\<close>
  the number of bits beyond 53, the last \<open>e\<close> bits are rounded away, and the result
  is an infinity from \<open>2 ^ 1024\<close> on.  A Symbol raises a \<^verbatim>\<open>TypeError\<close>.
\<close>

function bitLength :: "int \<Rightarrow> nat" where
  "bitLength a = (if a \<le> 0 then 0 else Suc (bitLength (a div 2)))"
  by auto
termination
  by (relation "measure nat") auto

definition bigIntToNumber :: "int \<Rightarrow> jsNumber" where
  "bigIntToNumber i =
     (let a = \<bar>i\<bar>; e = bitLength a - 53; q = a div 2 ^ e; r = a mod 2 ^ e;
          m = (if 2 * r > 2 ^ e \<or> (2 * r = 2 ^ e \<and> odd q) then q + 1 else q)
      in if m * 2 ^ e \<ge> 2 ^ 1024 then Infinite else Integer (sgn i * (m * 2 ^ e)))"

definition primToNumber :: "primitive \<Rightarrow> error + jsNumber" where
  "primToNumber p =
     (case p of
        PUndefined \<Rightarrow> Inr NaN
      | PNull \<Rightarrow> Inr (Integer 0)
      | PBoolean b \<Rightarrow> Inr (Integer (if b then 1 else 0))
      | PNumber n \<Rightarrow> Inr n
      | PString Blank \<Rightarrow> Inr (Integer 0)
      | PString (Numeric n) \<Rightarrow> Inr n
      | PString NonNumeric \<Rightarrow> Inr NaN
      | PBigInt i \<Rightarrow> Inr (bigIntToNumber i)
      | PSymbol \<Rightarrow> Inl TypeError)"

definition toNumber :: "jsValue \<Rightarrow> ctl \<Rightarrow> ctl \<times> (error + jsNumber)" where
  "toNumber v c =
     (case v of
        Primitive p \<Rightarrow> (c, primToNumber p)
      | Object toPrimitive \<Rightarrow>
          (case toPrimitive c of
             (c1, None) \<Rightarrow> (c1, Inl ConversionThrew)
           | (c1, Some p) \<Rightarrow> (c1, primToNumber p)))"

text \<open>
  \<^verbatim>\<open>Number.isFinite(idx)\<close>, and \<^verbatim>\<open>allRows[idx] || null\<close>, which is null for an index that
  is negative, not an integer or not below the number of data rows.
\<close>

definition isFinite :: "jsNumber \<Rightarrow> bool" where
  "isFinite n = (case n of NaN \<Rightarrow> False | Infinite \<Rightarrow> False | _ \<Rightarrow> True)"

definition rowAtIndex :: "ctl \<Rightarrow> jsNumber \<Rightarrow> rowRef option" where
  "rowAtIndex c n =
     (case n of
        Integer idx \<Rightarrow>
          if 0 \<le> idx \<and> nat idx < length (dataRowRefs (table c))
          then Some (dataRowRefs (table c) ! nat idx) else None
      | _ \<Rightarrow> None)"

text \<open>
  \<^verbatim>\<open>_resolveDataRow\<close>: a row element is returned as it is; any other value goes through
  \<^verbatim>\<open>Number\<close> first.  The result is the state the conversion leaves, with the exception
  or with the row found.
\<close>

definition resolveDataRow :: "ctl \<Rightarrow> rowArg \<Rightarrow> ctl \<times> (error + rowRef option)" where
  "resolveDataRow c rowOrIndex =
     (case rowOrIndex of
        RowElement ref \<Rightarrow> (c, Inr (Some ref))
      | Other v \<Rightarrow>
          (case toNumber v c of
             (c1, Inl e) \<Rightarrow> (c1, Inl e)
           | (c1, Inr idx) \<Rightarrow>
               (c1, Inr (if \<not> isFinite idx then None else rowAtIndex c1 idx))))"

definition expandRow :: "rowArg \<Rightarrow> ctl \<Rightarrow> ctl \<times> error option" where
  "expandRow rowOrIndex c =
     (case resolveDataRow c rowOrIndex of
        (c1, Inl e) \<Rightarrow> (c1, Some e)
      | (c1, Inr None) \<Rightarrow> (c1, None)
      | (c1, Inr (Some ref)) \<Rightarrow>
          if isExpanded (table c1) ref = Some False then toggle ref c1 else (c1, None))"

definition collapseRow :: "rowArg \<Rightarrow> ctl \<Rightarrow> ctl \<times> error option" where
  "collapseRow rowOrIndex c =
     (case resolveDataRow c rowOrIndex of
        (c1, Inl e) \<Rightarrow> (c1, Some e)
      | (c1, Inr None) \<Rightarrow> (c1, None)
      | (c1, Inr (Some ref)) \<Rightarrow>
          if isExpanded (table c1) ref = Some True then toggle ref c1 else (c1, None))"

subsection \<open>Building the columns and binding the rows\<close>

text \<open>
  \<^verbatim>\<open>measure(th)\<close>: the hint when positive, else the measured width when positive, else
  \<^verbatim>\<open>minWidthDefault\<close>.
\<close>

definition measure_th :: "options \<Rightarrow> cell \<Rightarrow> int" where
  "measure_th opts th =
     (if minAttr th > 0 then minAttr th
      else if measured th > 0 then measured th
      else minWidthDefault opts)"

text \<open>
  \<^verbatim>\<open>_buildColumns\<close>: the hide class leaves every header cell; column \<open>i\<close> gets the
  priority of its attribute, or 1 for the control column and \<open>i + 1\<close> otherwise.
\<close>

definition buildColumn :: "options \<Rightarrow> nat \<Rightarrow> cell \<Rightarrow> column" where
  "buildColumn opts i th =
     (let pr = (case priorityAttr th of
                  Some p \<Rightarrow> p
                | None \<Rightarrow> if i = 0 then 1 else int i + 1)
      in \<lparr>index = i,
          min_w = (if i = 0 then controlWidth opts else measure_th opts th),
          priority = pr,
          lock = (i = 0 \<or> pr = 1)\<rparr>)"

definition buildColumns :: "ctl \<Rightarrow> ctl" where
  "buildColumns c =
     (let ths = map (\<lambda>x. x\<lparr>hide := False\<rparr>) (headerCells (table c))
      in c\<lparr>table := setHeaderCells ths (table c),
           columnsMeta := map (\<lambda>i. buildColumn (options c) i (ths ! i)) [0..<length ths]\<rparr>)"

text \<open>\<^verbatim>\<open>_checkSpans\<close>\<close>

definition spans :: "cell \<Rightarrow> bool" where
  "spans x \<longleftrightarrow> colSpan x \<noteq> 1 \<or> rowSpan x \<noteq> 1"

definition checkSpans :: "ctl \<Rightarrow> ctl" where
  "checkSpans c =
     (if list_ex spans (headerCells (table c))
         \<or> list_ex (list_ex (\<lambda>row. list_ex spans (cells row))) (tBodies (table c))
      then c\<lparr>unsupportedSpan := True\<rparr> else c)"

text \<open>The cells \<^verbatim>\<open>createEl("th", control)\<close> and \<^verbatim>\<open>createEl("td", control)\<close> make.\<close>

definition controlCell :: cell where
  "controlCell =
     \<lparr>ctrl = True, hide = False, colSpan = 1, rowSpan = 1, textContent = [], innerHTML = [],
      priorityAttr = None, minAttr = 0, labelAttr = None, measured = 0\<rparr>"

text \<open>
  \<^verbatim>\<open>_ensureControlColumn\<close>: when the first header cell is not a control cell, a control
  cell goes in front of the header row and of every row of every body.
\<close>

definition ensureControlColumn :: "ctl \<Rightarrow> ctl" where
  "ensureControlColumn c =
     (if (case headerCells (table c) of [] \<Rightarrow> False | x # xs \<Rightarrow> ctrl x) then c
      else c\<lparr>table := mapRows (\<lambda>row. row\<lparr>cells := controlCell # cells row\<rparr>)
                         (setHeaderCells (controlCell # headerCells (table c)) (table c)),
             insertedControl := True\<rparr>)"

text \<open>
  \<^verbatim>\<open>_mountRowsInBody\<close> over the rows of one body: a data row gets its control cell,
  its key, its toggle button and, unless the next row is a details row, a new details
  row behind it.  The state threaded through is \<^verbatim>\<open>_rowKeyMap\<close> with \<^verbatim>\<open>_rowKeySeq\<close>;
  \<open>n\<close> counts the data rows met so far.
\<close>

definition newButton :: "rkey \<Rightarrow> button" where
  "newButton k =
     \<lparr>ariaExpanded = False, visibility = True, hiddenInLabel = None, face = FaceTitle,
      ariaControls = k\<rparr>"

definition newDetailsRow :: "nat \<Rightarrow> rkey \<Rightarrow> tr" where
  "newDetailsRow span k =
     \<lparr>isDetails = True,
      cells = [\<lparr>ctrl = False, hide = False, colSpan = span, rowSpan = 1, textContent = [],
                innerHTML = [], priorityAttr = None, minAttr = 0, labelAttr = None, measured = 0\<rparr>],
      btn = None, hiddenAttr = True,
      wrap = Some \<lparr>regionLabel = Unlabelled, content = CItems []\<rparr>,
      keyAttr = None, detailsId = Some k\<rparr>"

text \<open>
  Steps 1 to 3 for one data row; the result is the row, its key and the new
  \<^verbatim>\<open>_rowKeyMap\<close> and \<^verbatim>\<open>_rowKeySeq\<close>.
\<close>

definition bindRow :: "rkey list \<times> nat \<Rightarrow> nat \<Rightarrow> tr \<Rightarrow> tr \<times> rkey \<times> (rkey list \<times> nat)" where
  "bindRow ks n row =
     (let row1 = (if (case cells row of [] \<Rightarrow> False | x # xs \<Rightarrow> ctrl x) then row
                  else row\<lparr>cells := controlCell # cells row\<rparr>);
          kq = (if n < length (fst ks) then (fst ks ! n, ks)
                else (case keyAttr row1 of
                        Some a \<Rightarrow> (KeyAttr a, (fst ks @ [KeyAttr a], snd ks))
                      | None \<Rightarrow> (KeySeq (Suc (snd ks)), (fst ks @ [KeySeq (Suc (snd ks))], Suc (snd ks)))));
          row2 = (case btn row1 of
                    Some b \<Rightarrow> row1
                  | None \<Rightarrow> row1\<lparr>btn := Some (newButton (fst kq))\<rparr>)
      in (row2, fst kq, snd kq))"

fun mountRows :: "nat \<Rightarrow> rkey list \<times> nat \<Rightarrow> nat \<Rightarrow> tr list \<Rightarrow> tr list \<times> (rkey list \<times> nat) \<times> nat"
  where
  "mountRows span ks n [] = ([], ks, n)"
| "mountRows span ks n [row] =
     (if isDetails row then ([row], ks, n)
      else (case bindRow ks n row of
              (row', k, ks') \<Rightarrow> ([row', newDetailsRow span k], ks', Suc n)))"
| "mountRows span ks n (row # next # rest) =
     (if isDetails row then
        (case mountRows span ks n (next # rest) of (rows, r) \<Rightarrow> (row # rows, r))
      else
        (case bindRow ks n row of
           (row', k, ks') \<Rightarrow>
             if isDetails next then
               (case mountRows span ks' (Suc n) rest of
                  (rows, r) \<Rightarrow>
                    (row' # next\<lparr>cells := updAt 0 (\<lambda>x. x\<lparr>colSpan := span\<rparr>) (cells next)\<rparr> # rows, r))
             else
               (case mountRows span ks' (Suc n) (next # rest) of
                  (rows, r) \<Rightarrow> (row' # newDetailsRow span k # rows, r))))"

fun mountBodies ::
  "nat \<Rightarrow> rkey list \<times> nat \<Rightarrow> nat \<Rightarrow> tr list list \<Rightarrow> tr list list \<times> (rkey list \<times> nat)" where
  "mountBodies span ks n [] = ([], ks)"
| "mountBodies span ks n (tb # tbs) =
     (case mountRows span ks n tb of
        (tb', ks', n') \<Rightarrow>
          (case mountBodies span ks' n' tbs of (tbs', ks'') \<Rightarrow> (tb' # tbs', ks'')))"

text \<open>\<^verbatim>\<open>_mountAllBodies\<close>: every body, then the click and key handlers.\<close>

definition mountAllBodies :: "ctl \<Rightarrow> ctl" where
  "mountAllBodies c =
     (case mountBodies (length (headerCells (table c))) (rowKeyMap c, rowKeySeq c) 0
             (tBodies (table c)) of
        (tbs, ks) \<Rightarrow>
          c\<lparr>table := (table c)\<lparr>tBodies := tbs\<rparr>, rowKeyMap := fst ks, rowKeySeq := snd ks,
            listening := True\<rparr>)"

text \<open>\<^verbatim>\<open>_observe\<close>: the wrapper is assigned and the observers are connected.\<close>

definition observe :: "ctl \<Rightarrow> ctl" where
  "observe c = c\<lparr>wrapperSet := True, observing := True\<rparr>"

text \<open>
  \<^verbatim>\<open>refresh\<close>: the minimum widths are measured again (array position 0 gets the
  control width), then the details spans are synchronised and the table is refitted.
\<close>

definition remeasure :: "ctl \<Rightarrow> ctl" where
  "remeasure c =
     c\<lparr>columnsMeta :=
         map (\<lambda>i. (columnsMeta c ! i)\<lparr>min_w :=
                     (if i = 0 then controlWidth (options c)
                      else if index (columnsMeta c ! i) < length (headerCells (table c))
                           then measure_th (options c) (headerCells (table c) ! index (columnsMeta c ! i))
                           else minWidthDefault (options c))\<rparr>)
             [0..<length (columnsMeta c)]\<rparr>"

definition refresh :: "ctl \<Rightarrow> ctl \<times> error option" where
  "refresh c = refit False (syncDetailsColspan (remeasure c))"

subsection \<open>Construction and teardown\<close>

text \<open>
  The constructor with \<^verbatim>\<open>_initOnce\<close>.  The root class and the inline width and layout
  are written before the header and the bodies are looked at; the two \<^verbatim>\<open>throw\<close>s come
  after them.
\<close>

definition newController :: "table \<Rightarrow> options \<Rightarrow> ctl" where
  "newController t opts =
     \<lparr>table = t, options = opts, columnsMeta = [],
      unsupportedSpan = False, destroyed = False, insertedControl = False,
      rowKeyMap = [], rowKeySeq = 0,
      wrapperSet = False, observing = False, listening = False, coreStyles = False,
      events = []\<rparr>"

definition baseStyles :: "ctl \<Rightarrow> ctl" where
  "baseStyles c =
     c\<lparr>coreStyles := True,
       table := (table c)\<lparr>hasRoot := True,
                   styleWidth := (if styleWidth (table c) = [] then ''100%'' else styleWidth (table c)),
                   styleTableLayout := (if styleTableLayout (table c) = [] then tableLayout (options c)
                                        else styleTableLayout (table c))\<rparr>\<rparr>"

definition initOnce :: "ctl \<Rightarrow> ctl \<times> error option" where
  "initOnce c =
     (let c1 = baseStyles c
      in if (case tHead (table c1) of None \<Rightarrow> True | Some rows \<Rightarrow> rows = [])
         then (c1, Some HeadRequired)
         else if tBodies (table c1) = [] then (c1, Some BodyRequired)
         else
           (case refit True (mountAllBodies (buildColumns (ensureControlColumn (checkSpans c1)))) of
              (c2, Some e) \<Rightarrow> (c2, Some e)
            | (c2, None) \<Rightarrow> (observe c2, None)))"

text \<open>
  \<^verbatim>\<open>destroy\<close>.  The flag \<^verbatim>\<open>_destroyed\<close> is set and never read here, and
  \<^verbatim>\<open>_insertedControl\<close> stays as it was.
\<close>

definition destroy :: "ctl \<Rightarrow> ctl" where
  "destroy c =
     (let cols = columnsMeta c;
          t0 = table c;
          t1 = setHeaderCells (markCells cols (\<lambda>i. False) (headerCells t0)) t0;
          t2 = mapRows (\<lambda>row. if isDetails row then row
                              else row\<lparr>cells := markCells cols (\<lambda>i. False) (cells row)\<rparr>) t1;
          t3 = t2\<lparr>tBodies := map (filter (\<lambda>row. \<not> isDetails row)) (tBodies t2)\<rparr>;
          t4 = mapRows (\<lambda>row. row\<lparr>btn := None\<rparr>) t3;
          t5 = (if insertedControl c
                then mapRows (\<lambda>row. if isDetails row then row else row\<lparr>cells := tl (cells row)\<rparr>)
                       (setHeaderCells (tl (headerCells t4)) t4)
                else t4)
      in emit Destroy (c\<lparr>destroyed := True, observing := False, listening := False, table := t5\<rparr>))"

subsection \<open>The facade\<close>

text \<open>
  The page: the table elements by identity, and the facade with its options and its
  registry \<^verbatim>\<open>_tables\<close>.  A controller holds a reference to its table, so an operation
  runs on the element as the page has it and writes it back.  A target is what
  \<^verbatim>\<open>toElement\<close> and the \<^verbatim>\<open>instanceof HTMLTableElement\<close> test make of the argument.
\<close>

datatype target = Missing | NotTable | TableElement nat

record page =
  elements :: "nat \<rightharpoonup> table"
  registry :: "nat \<rightharpoonup> ctl"
  globalOptions :: options

text \<open>
  \<^verbatim>\<open>set(target, perTableOptions)\<close>; \<open>perTable\<close> is \<^verbatim>\<open>merge(this.options, _)\<close> with the
  caller's overrides.  The registry is written after the constructor has returned.
\<close>

definition set_table :: "target \<Rightarrow> (options \<Rightarrow> options) \<Rightarrow> page \<Rightarrow> page \<times> error option" where
  "set_table tg perTable pg =
     (case tg of
        Missing \<Rightarrow> (pg, Some TargetNotFound)
      | NotTable \<Rightarrow> (pg, Some TargetNotTable)
      | TableElement el \<Rightarrow>
          (case elements pg el of
             None \<Rightarrow> (pg, Some TargetNotFound)
           | Some t \<Rightarrow>
               (case registry pg el of
                  Some controller \<Rightarrow>
                    (let opts = perTable (globalOptions pg);
                         c1 = controller\<lparr>options := opts,
                                  table := t\<lparr>styleTableLayout := tableLayout opts\<rparr>\<rparr>
                     in case refresh c1 of
                          (c2, e) \<Rightarrow>
                            (pg\<lparr>elements := (elements pg)(el \<mapsto> table c2),
                                registry := (registry pg)(el \<mapsto> c2)\<rparr>, e))
                | None \<Rightarrow>
                    (case initOnce (newController t (perTable (globalOptions pg))) of
                       (c, Some e) \<Rightarrow> (pg\<lparr>elements := (elements pg)(el \<mapsto> table c)\<rparr>, Some e)
                     | (c, None) \<Rightarrow>
                         (pg\<lparr>elements := (elements pg)(el \<mapsto> table c),
                             registry := (registry pg)(el \<mapsto> c)\<rparr>, None)))))"

text \<open>\<^verbatim>\<open>unset(target)\<close>\<close>

definition unset :: "target \<Rightarrow> page \<Rightarrow> page" where
  "unset tg pg =
     (case tg of
        TableElement el \<Rightarrow>
          (case (elements pg el, registry pg el) of
             (Some t, Some controller) \<Rightarrow>
               pg\<lparr>elements := (elements pg)(el \<mapsto> table (destroy (controller\<lparr>table := t\<rparr>))),
                  registry := (registry pg)(el := None)\<rparr>
           | _ \<Rightarrow> pg)
      | _ \<Rightarrow> pg)"

subsection \<open>An example table\<close>

text \<open>
  The table of the README: four columns with priorities 1 to 4 and minimum widths 200,
  160, 130 and 120, no control column, one body with two rows; the default options.
  The wrapper is \<open>w\<close> pixels wide, the window 1280.
\<close>

definition defaultOptions :: options where
  "defaultOptions =
     \<lparr>controlWidth = 46, minWidthDefault = 140, tableLayout = ''auto'', deferWhenHidden = True,
      detailsRender = None\<rparr>"

definition headerCell :: "string \<Rightarrow> int \<Rightarrow> int \<Rightarrow> cell" where
  "headerCell name p m =
     \<lparr>ctrl = False, hide = False, colSpan = 1, rowSpan = 1, textContent = name, innerHTML = name,
      priorityAttr = Some p, minAttr = m, labelAttr = None, measured = 0\<rparr>"

definition dataCell :: "string \<Rightarrow> cell" where
  "dataCell s =
     \<lparr>ctrl = False, hide = False, colSpan = 1, rowSpan = 1, textContent = s, innerHTML = s,
      priorityAttr = None, minAttr = 0, labelAttr = None, measured = 0\<rparr>"

definition dataRow :: "string list \<Rightarrow> tr" where
  "dataRow ss =
     \<lparr>isDetails = False, cells = map dataCell ss, btn = None, hiddenAttr = False, wrap = None,
      keyAttr = None, detailsId = None\<rparr>"

definition exampleTable :: "int \<Rightarrow> table" where
  "exampleTable w =
     \<lparr>hasRoot = False, styleWidth = [], styleTableLayout = [],
      tHead = Some [[headerCell ''Project'' 1 200, headerCell ''Client'' 2 160,
                     headerCell ''Status'' 3 130, headerCell ''Budget'' 4 120]],
      tBodies = [[dataRow [''Website'', ''Acme'', ''Active'', ''1200''],
                  dataRow [''App'', ''Globex'', ''Paused'', ''800'']]],
      wrapperClientWidth = w, tableClientWidth = w, windowInnerWidth = 1280,
      wrapperVisible = True, tableVisible = True\<rparr>"

text \<open>The controller \<^verbatim>\<open>set\<close> creates for the example table, after a \<^verbatim>\<open>refresh\<close>.\<close>

definition attached :: "int \<Rightarrow> options \<Rightarrow> ctl" where
  "attached w opts = fst (refresh (fst (initOnce (newController (exampleTable w) opts))))"

subsection \<open>Notions used to state the controller's properties\<close>

text \<open>
  Every control cell carries the hide marker exactly when \<open>v\<close> holds: the first header
  cell and the first cell of every data row, where there is one.
\<close>

definition firstMarked :: "bool \<Rightarrow> cell list \<Rightarrow> bool" where
  "firstMarked v cs = (case cs of [] \<Rightarrow> True | x # xs \<Rightarrow> hide x = v)"

definition controlColumnMarked :: "bool \<Rightarrow> table \<Rightarrow> bool" where
  "controlColumnMarked v t \<longleftrightarrow>
     firstMarked v (headerCells t) \<and>
     list_all (\<lambda>ref. case rowAt t ref of None \<Rightarrow> True | Some row \<Rightarrow> firstMarked v (cells row))
       (dataRowRefs t)"

text \<open>
  For the proof of the rule: the first cell of one row carries the marker, and two
  tables have the same header cells and the same rows as far as \<open>isDetails\<close> goes.
\<close>

definition markedAt :: "bool \<Rightarrow> table \<Rightarrow> rowRef \<Rightarrow> bool" where
  "markedAt v t ref = (case rowAt t ref of None \<Rightarrow> True | Some row \<Rightarrow> firstMarked v (cells row))"

definition sameShape :: "table \<Rightarrow> table \<Rightarrow> bool" where
  "sameShape t t' \<longleftrightarrow>
     headerCells t' = headerCells t \<and>
     (\<forall>ref. map_option isDetails (rowAt t' ref) = map_option isDetails (rowAt t ref))"

text \<open>
  A renderer that writes nothing to the table and returns no cell of it (or no renderer).
\<close>

definition leavesTable :: "options \<Rightarrow> bool" where
  "leavesTable opts \<longleftrightarrow>
     (case detailsRender opts of
        None \<Rightarrow> True
      | Some f \<Rightarrow>
          (\<forall>row cols cs t ms. tableLeft (f row cols cs t ms) = t \<and>
             (\<forall>ref i. returned (f row cols cs t ms) \<noteq> RNode (BodyCell ref i))))"

text \<open>
  Renderers, each with the default options otherwise: one that throws, one that
  returns nothing usable (\<^verbatim>\<open>undefined\<close>), one that returns a node the container cannot
  take (the table), and one that returns the label of the first hidden column as a
  string and throws when it is handed no hidden column (it reads
  \<^verbatim>\<open>hiddenColumns[0].th\<close>).  None of them writes to what it is handed.
\<close>

definition throwingOptions :: options where
  "throwingOptions =
     defaultOptions\<lparr>detailsRender :=
       Some (\<lambda>row cols cs t ms.
               \<lparr>returned = RThrows, cellsLeft = cs, tableLeft = t, columnsLeft = ms\<rparr>)\<rparr>"

definition uselessOptions :: options where
  "uselessOptions =
     defaultOptions\<lparr>detailsRender :=
       Some (\<lambda>row cols cs t ms.
               \<lparr>returned = ROther, cellsLeft = cs, tableLeft = t, columnsLeft = ms\<rparr>)\<rparr>"

definition unappendableOptions :: options where
  "unappendableOptions =
     defaultOptions\<lparr>detailsRender :=
       Some (\<lambda>row cols cs t ms.
               \<lparr>returned = RNode Unappendable, cellsLeft = cs, tableLeft = t, columnsLeft = ms\<rparr>)\<rparr>"

definition firstHiddenLabel ::
  "tr \<Rightarrow> column list \<Rightarrow> cell list \<Rightarrow> table \<Rightarrow> column list \<Rightarrow> rendering" where
  "firstHiddenLabel row cols cs t ms =
     \<lparr>returned = (case cols of [] \<Rightarrow> RThrows | m # rest \<Rightarrow> RString (thLabel t (index m))),
      cellsLeft = cs, tableLeft = t, columnsLeft = ms\<rparr>"

definition fragileOptions :: options where
  "fragileOptions = defaultOptions\<lparr>detailsRender := Some firstHiddenLabel\<rparr>"

text \<open>
  A renderer that returns nothing usable after it has emptied the \<^verbatim>\<open>cells\<close> array
  (\<^verbatim>\<open>cells.length = 0\<close>).
\<close>

definition emptyingOptions :: options where
  "emptyingOptions =
     defaultOptions\<lparr>detailsRender :=
       Some (\<lambda>row cols cs t ms.
               \<lparr>returned = ROther, cellsLeft = [], tableLeft = t, columnsLeft = ms\<rparr>)\<rparr>"

text \<open>
  The example table at 500 pixels with the fragile renderer and its first row expanded,
  and the same after the wrapper has grown to 1000 pixels.
\<close>

definition opened :: ctl where
  "opened = fst (toggle (0, 0) (attached 500 fragileOptions))"

definition widened :: ctl where
  "widened = opened\<lparr>table := (table opened)\<lparr>wrapperClientWidth := 1000,
                                              tableClientWidth := 1000\<rparr>\<rparr>"

text \<open>The children of the container in the details row after \<open>ref\<close>.\<close>

definition panelContent :: "table \<Rightarrow> rowRef \<Rightarrow> content option" where
  "panelContent t ref =
     (case rowAt t (fst ref, Suc (snd ref)) of
        None \<Rightarrow> None
      | Some d \<Rightarrow> map_option content (wrap d))"

text \<open>
  What \<^verbatim>\<open>Number\<close> yields names a data row of the controller.  The empty array, whose
  conversion to a primitive is the empty string.
\<close>

definition validIndex :: "ctl \<Rightarrow> jsNumber \<Rightarrow> bool" where
  "validIndex c n \<longleftrightarrow>
     (case n of
        Integer i \<Rightarrow> 0 \<le> i \<and> nat i < length (dataRowRefs (table c))
      | _ \<Rightarrow> False)"

definition emptyArray :: jsValue where
  "emptyArray = Object (\<lambda>c. (c, Some (PString Blank)))"

text \<open>A page whose only table, element 7, has no header; nothing is registered.\<close>

definition headlessPage :: page where
  "headlessPage =
     \<lparr>elements = [7 \<mapsto> (exampleTable 500)\<lparr>tHead := None\<rparr>], registry = Map.empty,
      globalOptions = defaultOptions\<rparr>"

text \<open>What \<^verbatim>\<open>_initOnce\<close> writes to the table before it looks for header and bodies.\<close>

definition styledOnly :: "options \<Rightarrow> table \<Rightarrow> table" where
  "styledOnly opts t =
     t\<lparr>hasRoot := True,
       styleWidth := (if styleWidth t = [] then ''100%'' else styleWidth t),
       styleTableLayout := (if styleTableLayout t = [] then tableLayout opts else styleTableLayout t)\<rparr>"

text \<open>
  A page whose table 7 is registered (it was attached at 500 pixels) and has lost its
  header since.
\<close>

definition staleHeadlessPage :: page where
  "staleHeadlessPage =
     \<lparr>elements = [7 \<mapsto> (table (attached 500 defaultOptions))\<lparr>tHead := None\<rparr>],
      registry = [7 \<mapsto> attached 500 defaultOptions],
      globalOptions = defaultOptions\<rparr>"

section \<open>Properties of the column fit algorithm\<close>

lemma foldl_add_sum_list:
  fixes a :: int
  shows "foldl (\<lambda>s c. s + f c) a xs = a + sum_list (map f xs)"
  by (induction xs arbitrary: a) simp_all

lemma sumMin_alt: "sumMin cols = sum_list (map (\<lambda>c. if hidden c then 0 else min_w c) cols)"
proof -
  have "sum_list (map min_w (filter (\<lambda>c. \<not> hidden c) cols))
      = sum_list (map (\<lambda>c. if hidden c then 0 else min_w c) cols)"
    by (induction cols) simp_all
  then show ?thesis by (simp add: sumMin_def foldl_add_sum_list)
qed

lemma sum_list_map_update:
  fixes f :: "'a \<Rightarrow> 'b::comm_monoid_add"
  shows "p < length xs \<Longrightarrow>
    sum_list (map f (xs[p := y])) + f (xs ! p) = sum_list (map f xs) + f y"
proof (induction xs arbitrary: p)
  case Nil
  then show ?case by simp
next
  case (Cons x xs)
  show ?case
  proof (cases p)
    case 0
    then show ?thesis by (simp add: ac_simps)
  next
    case (Suc q)
    with Cons.prems have "q < length xs" by simp
    from Cons.IH [OF this] Suc show ?thesis
      by (simp add: add.assoc)
  qed
qed

lemma set_insertBy: "set (insertBy cmp x ys) = insert x (set ys)"
  by (induction ys) auto

lemma set_sortBy: "set (sortBy cmp xs) = set xs"
  by (induction xs) (simp_all add: sortBy_def set_insertBy)

lemma set_positions: "set (positions P cols) = {p. p < length cols \<and> P (cols ! p)}"
  by (auto simp: positions_def)

lemma candidate_Some:
  assumes "candidate cols = Some p"
  shows "p < length cols \<and> \<not> hidden (cols ! p) \<and> hideable (cols ! p)"
proof -
  let ?ps = "positions (\<lambda>c. \<not> hidden c \<and> \<not> lock c \<and> index c \<noteq> 0) cols"
  let ?s = "sortBy (\<lambda>p q. cmpWorst (cols ! p) (cols ! q)) ?ps"
  from assms obtain rest where "?s = p # rest"
    by (auto simp: candidate_def split: list.splits)
  then have "p \<in> set ?s" by simp
  then have "p \<in> set ?ps" by (simp only: set_sortBy)
  then show ?thesis by (simp add: set_positions hideable_def)
qed

lemma candidate_None:
  assumes "candidate cols = None" and "p < length cols" and "\<not> hidden (cols ! p)"
  shows "\<not> hideable (cols ! p)"
proof
  assume h: "hideable (cols ! p)"
  let ?ps = "positions (\<lambda>c. \<not> hidden c \<and> \<not> lock c \<and> index c \<noteq> 0) cols"
  let ?s = "sortBy (\<lambda>p q. cmpWorst (cols ! p) (cols ! q)) ?ps"
  from assms(1) have "?s = []" by (auto simp: candidate_def split: list.splits)
  then have "set ?s = {}" by simp
  then have "set ?ps = {}" by (simp only: set_sortBy)
  moreover from h assms(2,3) have "p \<in> set ?ps" by (simp add: set_positions hideable_def)
  ultimately show False by simp
qed

lemma length_setHidden [simp]: "length (setHidden p b cols) = length cols"
  by (simp add: setHidden_def)

lemma nth_setHidden:
  "q < length cols \<Longrightarrow>
   setHidden p b cols ! q = (if q = p then (cols ! p)\<lparr>hidden := b\<rparr> else cols ! q)"
  by (simp add: setHidden_def nth_list_update)

lemma sameCols_init: "sameCols m (initCols m)"
  by (simp add: sameCols_def initCols_def)

lemma sameCols_setHidden: "sameCols m cols \<Longrightarrow> sameCols m (setHidden p b cols)"
  by (simp add: sameCols_def nth_setHidden)

lemma hidOk_init: "hidOk (initCols m)"
  by (simp add: hidOk_def initCols_def)

lemma hidOk_unhide: "hidOk cols \<Longrightarrow> hidOk (setHidden p False cols)"
  by (simp add: hidOk_def nth_setHidden hideable_def)

lemma hidOk_hide:
  "hidOk cols \<Longrightarrow> hideable (cols ! p) \<Longrightarrow> hidOk (setHidden p True cols)"
  by (simp add: hidOk_def nth_setHidden hideable_def)

lemma sumMin_unhide:
  assumes "p < length cols" and "hidden (cols ! p)"
  shows "sumMin (setHidden p False cols) = sumMin cols + min_w (cols ! p)"
  using sum_list_map_update [OF assms(1),
      of "\<lambda>c. if hidden c then 0 else min_w c" "(cols ! p)\<lparr>hidden := False\<rparr>"] assms(2)
  by (simp add: sumMin_alt setHidden_def)

lemma hiddenCount_unhide:
  assumes "p < length cols" and "hidden (cols ! p)"
  shows "Suc (hiddenCount (setHidden p False cols)) = hiddenCount cols"
  using sum_list_map_update [OF assms(1),
      of "\<lambda>c. if hidden c then 1 else (0::nat)" "(cols ! p)\<lparr>hidden := False\<rparr>"] assms(2)
  by (simp add: hiddenCount_def setHidden_def)

lemma hiddenCount_unhide_le: "hiddenCount (setHidden p False cols) \<le> hiddenCount cols"
proof (cases "p < length cols")
  case True
  from sum_list_map_update [OF True,
      of "\<lambda>c. if hidden c then 1 else (0::nat)" "(cols ! p)\<lparr>hidden := False\<rparr>"]
  show ?thesis by (simp add: hiddenCount_def setHidden_def split: if_splits)
next
  case False
  then show ?thesis by (simp add: setHidden_def list_update_beyond)
qed

lemma hiddenCount_hide:
  assumes "p < length cols" and "\<not> hidden (cols ! p)"
  shows "hiddenCount (setHidden p True cols) = Suc (hiddenCount cols)"
  using sum_list_map_update [OF assms(1),
      of "\<lambda>c. if hidden c then 1 else (0::nat)" "(cols ! p)\<lparr>hidden := True\<rparr>"] assms(2)
  by (simp add: hiddenCount_def setHidden_def)

lemma visHideCount_hide:
  assumes "p < length cols" and "\<not> hidden (cols ! p)" and "hideable (cols ! p)"
  shows "Suc (visHideCount (setHidden p True cols)) = visHideCount cols"
  using sum_list_map_update [OF assms(1),
      of "\<lambda>c. if \<not> hidden c \<and> hideable c then 1 else (0::nat)" "(cols ! p)\<lparr>hidden := True\<rparr>"]
    assms(2,3)
  by (simp add: visHideCount_def setHidden_def)

lemma sum_list_zero_nth:
  fixes f :: "'a \<Rightarrow> nat"
  shows "sum_list (map f xs) = 0 \<Longrightarrow> p < length xs \<Longrightarrow> f (xs ! p) = 0"
  by (induction xs arbitrary: p) (auto simp: nth_Cons split: nat.splits)

lemma hiddenCount_0: "hiddenCount cols = 0 \<Longrightarrow> p < length cols \<Longrightarrow> \<not> hidden (cols ! p)"
  using sum_list_zero_nth [of "\<lambda>c. if hidden c then 1 else 0" cols p]
  by (auto simp: hiddenCount_def split: if_splits)

lemma visHideCount_0:
  "visHideCount cols = 0 \<Longrightarrow> p < length cols \<Longrightarrow> hideable (cols ! p) \<Longrightarrow> hidden (cols ! p)"
  using sum_list_zero_nth [of "\<lambda>c. if \<not> hidden c \<and> hideable c then 1 else 0" cols p]
  by (auto simp: visHideCount_def split: if_splits)

lemma hiddenCount_init: "hiddenCount (initCols m) = 0"
  by (simp add: hiddenCount_def initCols_def comp_def)

subsection \<open>Shrink phase\<close>

lemma shrinkLoop_sameCols: "sameCols m cols \<Longrightarrow> sameCols m (shrinkLoop g a cols)"
  by (induction g a cols rule: shrinkLoop.induct)
     (auto simp: sameCols_setHidden split: option.splits)

lemma shrinkLoop_hidOk: "hidOk cols \<Longrightarrow> hidOk (shrinkLoop g a cols)"
proof (induction g a cols rule: shrinkLoop.induct)
  case (1 available cols)
  then show ?case by simp
next
  case (2 guard available cols)
  show ?case
  proof (cases "candidate cols")
    case None
    with "2.prems" show ?thesis by simp
  next
    case (Some p)
    from candidate_Some [OF Some] "2.prems" have "hidOk (setHidden p True cols)"
      by (simp add: hidOk_hide)
    with "2.IH" Some "2.prems" show ?thesis by simp
  qed
qed

lemma shrinkLoop_hiddenCount: "hiddenCount (shrinkLoop g a cols) \<le> hiddenCount cols + g"
proof (induction g a cols rule: shrinkLoop.induct)
  case (1 available cols)
  then show ?case by simp
next
  case (2 guard available cols)
  show ?case
  proof (cases "candidate cols")
    case None
    then show ?thesis by simp
  next
    case (Some p)
    from candidate_Some [OF Some]
    have "hiddenCount (setHidden p True cols) = Suc (hiddenCount cols)"
      by (simp add: hiddenCount_hide)
    with "2.IH" Some show ?thesis by (cases "available < sumMin cols") simp_all
  qed
qed

lemma shrinkLoop_fits:
  "visHideCount cols \<le> g \<Longrightarrow>
   sumMin (shrinkLoop g a cols) \<le> a \<or> visHideCount (shrinkLoop g a cols) = 0"
proof (induction g a cols rule: shrinkLoop.induct)
  case (1 available cols)
  then show ?case by simp
next
  case (2 guard available cols)
  show ?case
  proof (cases "available < sumMin cols")
    case False
    then show ?thesis by simp
  next
    case True
    show ?thesis
    proof (cases "candidate cols")
      case None
      have "visHideCount cols = 0"
        unfolding visHideCount_def
        using candidate_None [OF None]
        by (auto simp: in_set_conv_nth)
      with None True show ?thesis by simp
    next
      case (Some p)
      from candidate_Some [OF Some]
      have "Suc (visHideCount (setHidden p True cols)) = visHideCount cols"
        by (simp add: visHideCount_hide)
      with "2.prems" have "visHideCount (setHidden p True cols) \<le> guard" by simp
      from "2.IH" [OF True Some this] True Some show ?thesis by simp
    qed
  qed
qed

subsection \<open>Grow-back phase\<close>

lemma growStep_cases:
  "growStep a p (cols, ch) = (setHidden p False cols, True) \<and> sumMin (setHidden p False cols) \<le> a
   \<or> growStep a p (cols, ch) = (cols, ch) \<and> \<not> sumMin (setHidden p False cols) \<le> a"
  by (simp add: growStep_def Let_def)

lemma fold_growStep_sameCols:
  "sameCols m cols \<Longrightarrow> sameCols m (fst (fold (growStep a) ps (cols, ch)))"
proof (induction ps arbitrary: cols ch)
  case Nil
  then show ?case by simp
next
  case (Cons p ps)
  from growStep_cases [of a p cols ch] Cons show ?case
    by (auto simp: sameCols_setHidden)
qed

lemma fold_growStep_hidOk:
  "hidOk cols \<Longrightarrow> hidOk (fst (fold (growStep a) ps (cols, ch)))"
proof (induction ps arbitrary: cols ch)
  case Nil
  then show ?case by simp
next
  case (Cons p ps)
  from growStep_cases [of a p cols ch] Cons show ?case
    by (auto simp: hidOk_unhide)
qed

lemma fold_growStep_fits:
  "sumMin cols \<le> a \<Longrightarrow> sumMin (fst (fold (growStep a) ps (cols, ch))) \<le> a"
proof (induction ps arbitrary: cols ch)
  case Nil
  then show ?case by simp
next
  case (Cons p ps)
  from growStep_cases [of a p cols ch] Cons show ?case
    by auto
qed

lemma fold_growStep_hiddenCount:
  "hiddenCount (fst (fold (growStep a) ps (cols, ch))) \<le> hiddenCount cols"
proof (induction ps arbitrary: cols ch)
  case Nil
  then show ?case by simp
next
  case (Cons p ps)
  from growStep_cases [of a p cols ch] show ?case
  proof
    assume h: "growStep a p (cols, ch) = (setHidden p False cols, True) \<and>
      sumMin (setHidden p False cols) \<le> a"
    have "hiddenCount (fst (fold (growStep a) ps (setHidden p False cols, True)))
       \<le> hiddenCount (setHidden p False cols)" by (rule Cons.IH)
    also have "\<dots> \<le> hiddenCount cols" by (rule hiddenCount_unhide_le)
    finally show ?thesis using h by simp
  next
    assume "growStep a p (cols, ch) = (cols, ch) \<and> \<not> sumMin (setHidden p False cols) \<le> a"
    with Cons.IH [of cols ch] show ?thesis by simp
  qed
qed

lemma fold_growStep_unchanged:
  "snd (fold (growStep a) ps (cols, False)) = False \<Longrightarrow>
   fst (fold (growStep a) ps (cols, False)) = cols \<and>
   (\<forall>p \<in> set ps. \<not> sumMin (setHidden p False cols) \<le> a)"
proof (induction ps arbitrary: cols)
  case Nil
  then show ?case by simp
next
  case (Cons p ps)
  have mono: "snd (fold (growStep a) qs (cs, True)) = True" for qs cs
    by (induction qs arbitrary: cs) (simp_all add: growStep_def Let_def)
  from growStep_cases [of a p cols False] show ?case
  proof
    assume h: "growStep a p (cols, False) = (setHidden p False cols, True) \<and>
      sumMin (setHidden p False cols) \<le> a"
    with Cons.prems mono [of ps "setHidden p False cols"] show ?thesis by simp
  next
    assume h: "growStep a p (cols, False) = (cols, False) \<and>
      \<not> sumMin (setHidden p False cols) \<le> a"
    with Cons.prems have "snd (fold (growStep a) ps (cols, False)) = False" by simp
    from Cons.IH [OF this] h show ?thesis by simp
  qed
qed

lemma fold_growStep_changed:
  "snd (fold (growStep a) ps (cols, False)) = True \<Longrightarrow>
   \<forall>p \<in> set ps. p < length cols \<and> hidden (cols ! p) \<Longrightarrow>
   hiddenCount (fst (fold (growStep a) ps (cols, False))) < hiddenCount cols"
proof (induction ps arbitrary: cols)
  case Nil
  then show ?case by simp
next
  case (Cons p ps)
  from growStep_cases [of a p cols False] show ?case
  proof
    assume h: "growStep a p (cols, False) = (setHidden p False cols, True) \<and>
      sumMin (setHidden p False cols) \<le> a"
    from Cons.prems(2) have "Suc (hiddenCount (setHidden p False cols)) = hiddenCount cols"
      by (simp add: hiddenCount_unhide)
    moreover have "hiddenCount (fst (fold (growStep a) ps (setHidden p False cols, True)))
       \<le> hiddenCount (setHidden p False cols)" by (rule fold_growStep_hiddenCount)
    ultimately show ?thesis using h by simp
  next
    assume h: "growStep a p (cols, False) = (cols, False) \<and>
      \<not> sumMin (setHidden p False cols) \<le> a"
    with Cons.prems have "snd (fold (growStep a) ps (cols, False)) = True" by simp
    from Cons.IH [OF this] Cons.prems(2) h show ?thesis by simp
  qed
qed

lemma set_growOrder:
  "set (sortBy (\<lambda>p q. cmpBest (cols ! p) (cols ! q)) (positions hidden cols))
     = {p. p < length cols \<and> hidden (cols ! p)}"
  by (simp only: set_sortBy set_positions)

lemma growPass_unchanged:
  assumes "snd (growPass a cols) = False"
  shows "fst (growPass a cols) = cols \<and> minimalCols cols a"
  using fold_growStep_unchanged [OF assms [unfolded growPass_def]]
  unfolding growPass_def minimalCols_def set_growOrder by simp

lemma growPass_changed:
  assumes "snd (growPass a cols) = True"
  shows "hiddenCount (fst (growPass a cols)) < hiddenCount cols"
  using fold_growStep_changed [OF assms [unfolded growPass_def]]
  unfolding growPass_def set_growOrder by simp

lemma growLoop_False: "growLoop g a False cols = cols"
  by (cases g) simp_all

lemma growLoop_invariant:
  assumes step: "\<And>cs. P cs \<Longrightarrow> P (fst (growPass a cs))" and init: "P cols"
  shows "P (growLoop g a ch cols)"
  using init
proof (induction g arbitrary: ch cols)
  case 0
  then show ?case by simp
next
  case (Suc g)
  obtain cols' ch' where gp: "growPass a cols = (cols', ch')" by (cases "growPass a cols")
  with step [OF Suc.prems] have "P cols'" by simp
  from Suc.IH [OF this] gp Suc.prems show ?case by simp
qed

lemma growLoop_sameCols: "sameCols m cols \<Longrightarrow> sameCols m (growLoop g a ch cols)"
  by (rule growLoop_invariant) (simp_all add: growPass_def fold_growStep_sameCols)

lemma growLoop_hidOk: "hidOk cols \<Longrightarrow> hidOk (growLoop g a ch cols)"
  by (rule growLoop_invariant) (simp_all add: growPass_def fold_growStep_hidOk)

lemma growLoop_fits: "sumMin cols \<le> a \<Longrightarrow> sumMin (growLoop g a ch cols) \<le> a"
  by (rule growLoop_invariant) (simp_all add: growPass_def fold_growStep_fits)

lemma growLoop_hiddenCount: "hiddenCount (growLoop g a ch cols) \<le> hiddenCount cols"
proof (rule growLoop_invariant [where P = "\<lambda>cs. hiddenCount cs \<le> hiddenCount cols"])
  fix cs assume "hiddenCount cs \<le> hiddenCount cols"
  moreover have "hiddenCount (fst (growPass a cs)) \<le> hiddenCount cs"
    unfolding growPass_def by (rule fold_growStep_hiddenCount)
  ultimately show "hiddenCount (fst (growPass a cs)) \<le> hiddenCount cols" by simp
qed simp

lemma growLoop_minimal:
  "hiddenCount cols \<le> g \<Longrightarrow> minimalCols (growLoop g a True cols) a"
proof (induction g arbitrary: cols)
  case 0
  then show ?case by (auto simp: minimalCols_def dest: hiddenCount_0)
next
  case (Suc g)
  obtain cols' ch' where gp: "growPass a cols = (cols', ch')" by (cases "growPass a cols")
  show ?case
  proof (cases ch')
    case True
    with gp growPass_changed [of a cols] have "hiddenCount cols' < hiddenCount cols" by simp
    with Suc.prems have "hiddenCount cols' \<le> g" by simp
    from Suc.IH [OF this] gp True show ?thesis by simp
  next
    case False
    with gp growPass_unchanged [of a cols] have "cols' = cols" "minimalCols cols a" by simp_all
    with gp False show ?thesis by (simp add: growLoop_False)
  qed
qed

subsection \<open>The solver as a whole\<close>

lemma solveCols_sameCols: "sameCols m (solveCols m a)"
  unfolding solveCols_def
  by (intro growLoop_sameCols shrinkLoop_sameCols sameCols_init)

lemma solveCols_hidOk: "hidOk (solveCols m a)"
  unfolding solveCols_def
  by (intro growLoop_hidOk shrinkLoop_hidOk hidOk_init)

lemma solveCols_minimal: "minimalCols (solveCols m a) a"
proof -
  have "hiddenCount (shrinkLoop 200 a (initCols m)) \<le> hiddenCount (initCols m) + 200"
    by (rule shrinkLoop_hiddenCount)
  then have "hiddenCount (shrinkLoop 200 a (initCols m)) \<le> 200"
    by (simp add: hiddenCount_init)
  then show ?thesis unfolding solveCols_def by (rule growLoop_minimal)
qed

lemma solveCols_hiddenCount: "hiddenCount (solveCols m a) \<le> 200"
proof -
  have "hiddenCount (solveCols m a) \<le> hiddenCount (shrinkLoop 200 a (initCols m))"
    unfolding solveCols_def by (rule growLoop_hiddenCount)
  also have "\<dots> \<le> hiddenCount (initCols m) + 200" by (rule shrinkLoop_hiddenCount)
  finally show ?thesis by (simp add: hiddenCount_init)
qed

lemma hidden_index_iff:
  assumes d: "distinct (map index m)" and s: "sameCols m cols" and p: "p < length m"
  shows "index (m ! p) \<in> set (map index (filter hidden cols)) \<longleftrightarrow> hidden (cols ! p)"
proof
  assume "index (m ! p) \<in> set (map index (filter hidden cols))"
  then obtain c where c: "c \<in> set cols" "hidden c" "index c = index (m ! p)" by auto
  then obtain q where q: "q < length cols" "cols ! q = c" by (auto simp: in_set_conv_nth)
  from s q(1) have ql: "q < length m" by (simp add: sameCols_def)
  with s have "index (cols ! q) = index (m ! q)" by (simp add: sameCols_def)
  with c q have "index (m ! q) = index (m ! p)" by simp
  with nth_eq_iff_index_eq [OF d, of q p] ql p have "q = p" by simp
  with q c show "hidden (cols ! p)" by simp
next
  assume h: "hidden (cols ! p)"
  from s p have "p < length cols" "index (cols ! p) = index (m ! p)"
    by (simp_all add: sameCols_def)
  with h show "index (m ! p) \<in> set (map index (filter hidden cols))"
    by (force simp: in_set_conv_nth)
qed

lemma survivingSum_sumMin:
  assumes d: "distinct (map index m)" and s: "sameCols m cols"
  shows "survivingSum m (set (map index (filter hidden cols))) = sumMin cols"
proof -
  let ?H = "set (map index (filter hidden cols))"
  have len: "length cols = length m" using s by (simp add: sameCols_def)
  have "survivingSum m ?H = sum_list (map (\<lambda>c. if index c \<in> ?H then 0 else min_w c) m)"
    unfolding survivingSum_def by (induction m) simp_all
  also have "\<dots> = (\<Sum>p = 0..<length m. if index (m ! p) \<in> ?H then 0 else min_w (m ! p))"
    by (simp add: sum_list_sum_nth)
  also have "\<dots> = (\<Sum>p = 0..<length m. if hidden (cols ! p) then 0 else min_w (cols ! p))"
  proof (rule sum.cong)
    fix p assume "p \<in> {0..<length m}"
    then have p: "p < length m" by simp
    from s p have "min_w (cols ! p) = min_w (m ! p)" by (simp add: sameCols_def)
    with hidden_index_iff [OF d s p]
    show "(if index (m ! p) \<in> ?H then 0 else min_w (m ! p))
        = (if hidden (cols ! p) then 0 else min_w (cols ! p))" by simp
  qed simp
  also have "\<dots> = sumMin cols"
    by (simp add: sumMin_alt sum_list_sum_nth len)
  finally show ?thesis .
qed

lemma fold_growStep_fixpoint:
  "\<forall>p \<in> set ps. \<not> sumMin (setHidden p False cols) \<le> a \<Longrightarrow>
   fold (growStep a) ps (cols, False) = (cols, False)"
  by (induction ps) (simp_all add: growStep_def Let_def)

lemma growPass_fixpoint:
  assumes "minimalCols cols a"
  shows "growPass a cols = (cols, False)"
  unfolding growPass_def
proof (rule fold_growStep_fixpoint)
  show "\<forall>p\<in>set (sortBy (\<lambda>p q. cmpBest (cols ! p) (cols ! q)) (positions hidden cols)).
          \<not> sumMin (setHidden p False cols) \<le> a"
    using assms unfolding set_growOrder minimalCols_def by simp
qed

lemma survivingSum_unhide:
  assumes "distinct (map index m)" and "c \<in> set m" and "index c \<in> H"
  shows "survivingSum m (H - {index c}) = survivingSum m H + min_w c"
  using assms
proof (induction m)
  case Nil
  then show ?case by simp
next
  case (Cons x xs)
  show ?case
  proof (cases "x = c")
    case True
    with Cons.prems(1) have "\<forall>y \<in> set xs. index y \<noteq> index c" by (auto simp: image_iff)
    then have "filter (\<lambda>y. index y \<notin> H - {index c}) xs = filter (\<lambda>y. index y \<notin> H) xs"
      by (intro filter_cong) auto
    with True Cons.prems(3) show ?thesis by (simp add: survivingSum_def)
  next
    case False
    with Cons.prems have c: "c \<in> set xs" and d: "distinct (map index xs)" by auto
    from c Cons.prems(1) have "index x \<noteq> index c" by (auto simp: image_iff)
    with Cons.IH [OF d c Cons.prems(3)] show ?thesis by (simp add: survivingSum_def)
  qed
qed

lemma lockedSum_le:
  assumes nonneg: "\<forall>c \<in> set m. hideable c \<longrightarrow> 0 \<le> min_w c"
    and S: "onlyUnlocked m S"
  shows "sum_list (map (\<lambda>c. if hideable c then 0 else min_w c) m) \<le> survivingSum m S"
proof -
  have "survivingSum m S = sum_list (map (\<lambda>c. if index c \<in> S then 0 else min_w c) m)"
    unfolding survivingSum_def by (induction m) simp_all
  moreover have "sum_list (map (\<lambda>c. if hideable c then 0 else min_w c) m)
      \<le> sum_list (map (\<lambda>c. if index c \<in> S then 0 else min_w c) m)"
    using nonneg S by (intro sum_list_mono) (auto simp: onlyUnlocked_def list_all_iff)
  ultimately show ?thesis by simp
qed

lemma sumMin_all_hidden:
  assumes s: "sameCols m cols" and ok: "hidOk cols" and v: "visHideCount cols = 0"
  shows "sumMin cols = sum_list (map (\<lambda>c. if hideable c then 0 else min_w c) m)"
proof -
  have len: "length cols = length m" using s by (simp add: sameCols_def)
  have "sumMin cols = (\<Sum>p = 0..<length m. if hidden (cols ! p) then 0 else min_w (cols ! p))"
    by (simp add: sumMin_alt sum_list_sum_nth len)
  also have "\<dots> = (\<Sum>p = 0..<length m. if hideable (m ! p) then 0 else min_w (m ! p))"
  proof (rule sum.cong)
    fix p assume "p \<in> {0..<length m}"
    then have p: "p < length m" by simp
    with s have eq: "min_w (cols ! p) = min_w (m ! p)" "hideable (cols ! p) = hideable (m ! p)"
      by (simp_all add: sameCols_def hideable_def)
    from ok p len have "hidden (cols ! p) \<Longrightarrow> hideable (cols ! p)" by (simp add: hidOk_def)
    moreover from visHideCount_0 [OF v] p len
    have "hideable (cols ! p) \<Longrightarrow> hidden (cols ! p)" by simp
    ultimately show "(if hidden (cols ! p) then 0 else min_w (cols ! p))
        = (if hideable (m ! p) then 0 else min_w (m ! p))" using eq by auto
  qed simp
  also have "\<dots> = sum_list (map (\<lambda>c. if hideable c then 0 else min_w c) m)"
    by (simp add: sum_list_sum_nth)
  finally show ?thesis .
qed

lemma visHideCount_init: "visHideCount (initCols m) = length (filter hideable m)"
  by (induction m) (simp_all add: visHideCount_def initCols_def hideable_def)

lemma solveCols_fits:
  assumes bound: "length (filter hideable m) \<le> 200"
    and nonneg: "\<forall>c \<in> set m. hideable c \<longrightarrow> 0 \<le> min_w c"
    and S: "onlyUnlocked m S" and fit: "survivingSum m S \<le> a"
  shows "sumMin (solveCols m a) \<le> a"
proof -
  let ?r = "shrinkLoop 200 a (initCols m)"
  have "visHideCount (initCols m) \<le> 200" using bound by (simp add: visHideCount_init)
  from shrinkLoop_fits [OF this, of a] have "sumMin ?r \<le> a"
  proof
    assume "visHideCount ?r = 0"
    with sumMin_all_hidden [of m ?r]
    have "sumMin ?r = sum_list (map (\<lambda>c. if hideable c then 0 else min_w c) m)"
      by (simp add: shrinkLoop_sameCols sameCols_init shrinkLoop_hidOk hidOk_init)
    also have "\<dots> \<le> survivingSum m S" by (rule lockedSum_le [OF nonneg S])
    finally show ?thesis using fit by simp
  qed
  then show ?thesis unfolding solveCols_def by (rule growLoop_fits)
qed

text \<open>
  Claim C1 (fit guarantee), as the code has it.  When the column indices are distinct,
  there are at most 200 unlocked non-control columns (the shrink loop runs at most 200
  rounds) and none of them has a negative minimum width, then: if hiding some set of
  unlocked non-control columns brings the sum of the minimum widths of the others to
  at most \<open>available\<close>, the columns left visible by \<open>computeHiddenColumns\<close> have a
  minimum-width sum of at most \<open>available\<close>.
\<close>

theorem fit_guarantee_bounded:
  assumes "distinct (map index columns)"
    and "length (filter hideable columns) \<le> 200"
    and "\<forall>c \<in> set columns. hideable c \<longrightarrow> 0 \<le> min_w c"
    and "onlyUnlocked columns S"
    and "survivingSum columns S \<le> available"
  shows "survivingSum columns (computeHiddenColumns columns available) \<le> available"
  unfolding computeHiddenColumns_def
  using survivingSum_sumMin [OF assms(1) solveCols_sameCols, of available]
    solveCols_fits [OF assms(2-5)]
  by simp

theorem fit_guarantee_bounded_witness:
  "distinct (map index scenarioColumns) \<and>
   length (filter hideable scenarioColumns) \<le> 200 \<and>
   list_all (\<lambda>c. hideable c \<longrightarrow> 0 \<le> min_w c) scenarioColumns \<and>
   onlyUnlocked scenarioColumns {3, 4} \<and>
   survivingSum scenarioColumns {3, 4} \<le> 500 \<and>
   survivingSum scenarioColumns (computeHiddenColumns scenarioColumns 500) \<le> 500"
  using fit_guarantee_bounded [of scenarioColumns "{3, 4}" 500]
  by (simp add: scenarioColumns_def hideable_def onlyUnlocked_def survivingSum_def)

text \<open>
  Claim C2 (locked columns are never hidden).  For every column list with distinct
  indices and every available width, a column whose lock flag is set, and the control
  column at index 0, is not in the hidden-set returned by \<open>computeHiddenColumns\<close>.
\<close>

theorem locked_never_hidden:
  assumes "distinct (map index columns)"
    and "c \<in> set columns"
    and "lock c \<or> index c = 0"
  shows "index c \<notin> computeHiddenColumns columns available"
proof
  assume h: "index c \<in> computeHiddenColumns columns available"
  from assms(2) obtain p where p: "p < length columns" "columns ! p = c"
    by (auto simp: in_set_conv_nth)
  let ?r = "solveCols columns available"
  have s: "sameCols columns ?r" by (rule solveCols_sameCols)
  from h p hidden_index_iff [OF assms(1) s p(1)] have "hidden (?r ! p)"
    by (simp add: computeHiddenColumns_def)
  moreover from s p have "length ?r = length columns" "index (?r ! p) = index c"
    "lock (?r ! p) = lock c" by (simp_all add: sameCols_def)
  ultimately have "hideable c"
    using solveCols_hidOk [of columns available] p(1)
    by (auto simp: hidOk_def hideable_def)
  with assms(3) show False by (simp add: hideable_def)
qed

theorem locked_never_hidden_witness:
  "distinct (map index scenarioColumns) \<and>
   scenarioColumns ! 1 \<in> set scenarioColumns \<and>
   lock (scenarioColumns ! 1) \<and>
   index (scenarioColumns ! 1) \<notin> computeHiddenColumns scenarioColumns 240"
  using locked_never_hidden [of scenarioColumns "scenarioColumns ! 1" 240]
  by (simp add: scenarioColumns_def)

text \<open>
  Claim C3 (minimality).  For every column list with distinct indices and every
  available width, for every column in the returned hidden-set: the surviving
  minimum-width sum plus that column's minimum width exceeds \<open>available\<close>, which is the
  surviving sum of the hidden-set without that column; and one more grow-back pass over
  the solver's final state changes nothing.
\<close>

theorem hidden_set_minimal:
  assumes "distinct (map index columns)"
    and "c \<in> set columns"
    and "index c \<in> computeHiddenColumns columns available"
  shows "available <
           survivingSum columns (computeHiddenColumns columns available) + min_w c \<and>
         available <
           survivingSum columns (computeHiddenColumns columns available - {index c}) \<and>
         growPass available (solveCols columns available)
           = (solveCols columns available, False)"
proof -
  let ?r = "solveCols columns available"
  let ?H = "computeHiddenColumns columns available"
  have s: "sameCols columns ?r" by (rule solveCols_sameCols)
  have m: "minimalCols ?r available" by (rule solveCols_minimal)
  from assms(2) obtain p where p: "p < length columns" "columns ! p = c"
    by (auto simp: in_set_conv_nth)
  from assms(3) p hidden_index_iff [OF assms(1) s p(1)] have hid: "hidden (?r ! p)"
    by (simp add: computeHiddenColumns_def)
  from s p have len: "p < length ?r" and mw: "min_w (?r ! p) = min_w c"
    by (simp_all add: sameCols_def)
  from m len hid have "available < sumMin (setHidden p False ?r)"
    by (auto simp: minimalCols_def)
  with sumMin_unhide [OF len hid] mw have "available < sumMin ?r + min_w c" by simp
  moreover have "survivingSum columns ?H = sumMin ?r"
    unfolding computeHiddenColumns_def by (rule survivingSum_sumMin [OF assms(1) s])
  ultimately have 1: "available < survivingSum columns ?H + min_w c" by simp
  with survivingSum_unhide [OF assms] have 2: "available < survivingSum columns (?H - {index c})"
    by simp
  from 1 2 growPass_fixpoint [OF m] show ?thesis by simp
qed

theorem hidden_set_minimal_witness:
  "distinct (map index scenarioColumns) \<and>
   scenarioColumns ! 3 \<in> set scenarioColumns \<and>
   index (scenarioColumns ! 3) \<in> computeHiddenColumns scenarioColumns 500 \<and>
   500 < survivingSum scenarioColumns (computeHiddenColumns scenarioColumns 500)
           + min_w (scenarioColumns ! 3)"
proof -
  have h: "computeHiddenColumns scenarioColumns 500 = {3, 4}" by code_simp
  show ?thesis
    using hidden_set_minimal [of scenarioColumns "scenarioColumns ! 3" 500]
    by (simp add: h) (simp add: scenarioColumns_def)
qed

text \<open>
  Claim C4 (scenario C).  For the columns control (46, locked), A (priority 1, 200,
  locked), B (priority 2, 160), C (priority 3, 130), D (priority 4, 120) and
  \<open>available = 240\<close> the solver returns exactly \<open>{B, C, D}\<close>; the surviving columns sum
  to 246, above 240, and no locked column is hidden.
\<close>

theorem scenario_C_overflow_accepted:
  "computeHiddenColumns scenarioColumns 240 = {2, 3, 4} \<and>
   survivingSum scenarioColumns (computeHiddenColumns scenarioColumns 240) = 246"
  by code_simp

text \<open>Scenarios A and B of the same columns: 500 pixels hide C and D, 700 pixels nothing.\<close>

lemma scenario_A: "computeHiddenColumns scenarioColumns 500 = {3, 4}"
  by code_simp

lemma scenario_B: "computeHiddenColumns scenarioColumns 700 = {}"
  by code_simp

lemma sumMin_plus_hidden:
  "\<forall>c \<in> set cs. hidden c \<longrightarrow> min_w c = w \<Longrightarrow>
   sumMin cs + w * int (hiddenCount cs) = sum_list (map min_w cs)"
  by (induction cs) (simp_all add: sumMin_alt hiddenCount_def algebra_simps)

lemma sameCols_min_w: "sameCols m cols \<Longrightarrow> map min_w cols = map min_w m"
  by (rule nth_equalityI) (simp_all add: sameCols_def)

lemma wideColumns_overflow:
  "survivingSum wideColumns (computeHiddenColumns wideColumns 100) \<ge> 186"
proof -
  let ?r = "solveCols wideColumns 100"
  have s: "sameCols wideColumns ?r" by (rule solveCols_sameCols)
  have d: "distinct (map index wideColumns)"
    by (simp add: wideColumns_def comp_def)
  have w: "\<forall>c \<in> set wideColumns. index c \<noteq> 0 \<longrightarrow> min_w c = 140"
    by (auto simp: wideColumns_def)
  have "\<forall>c \<in> set ?r. hidden c \<longrightarrow> min_w c = 140"
  proof (intro ballI impI)
    fix c assume "c \<in> set ?r" and h: "hidden c"
    then obtain p where p: "p < length ?r" "?r ! p = c" by (auto simp: in_set_conv_nth)
    with h solveCols_hidOk [of wideColumns 100] have "index c \<noteq> 0"
      by (auto simp: hidOk_def hideable_def)
    moreover from s p have "p < length wideColumns" "index c = index (wideColumns ! p)"
      "min_w c = min_w (wideColumns ! p)" by (auto simp: sameCols_def)
    ultimately show "min_w c = 140" using w by (metis nth_mem)
  qed
  from sumMin_plus_hidden [OF this]
  have "sumMin ?r + 140 * int (hiddenCount ?r) = sum_list (map min_w wideColumns)"
    by (simp add: sameCols_min_w [OF s])
  also have "\<dots> = 28186" by (simp add: wideColumns_def comp_def sum_list_triv)
  finally have "sumMin ?r = 28186 - 140 * int (hiddenCount ?r)" by simp
  with solveCols_hiddenCount [of wideColumns 100] have "186 \<le> sumMin ?r" by simp
  then show ?thesis
    unfolding computeHiddenColumns_def by (simp only: survivingSum_sumMin [OF d s])
qed

text \<open>
  Claim C1 as it is stated, for every column list, fails on \<open>wideColumns\<close> with
  \<open>available = 100\<close> (hiding the 201 unlocked columns leaves 46, the solver leaves at
  least 186) and on \<open>negativeColumns\<close> with \<open>available = - 16\<close> (hiding column 1 leaves
  \<open>- 20\<close>, the solver hides all three and leaves 0).
\<close>

theorem fit_guarantee_counterexample:
  "onlyUnlocked wideColumns (set [1..<202]) \<and>
   survivingSum wideColumns (set [1..<202]) \<le> 100 \<and>
   \<not> survivingSum wideColumns (computeHiddenColumns wideColumns 100) \<le> 100 \<and>
   onlyUnlocked negativeColumns {1} \<and>
   survivingSum negativeColumns {1} \<le> - 16 \<and>
   \<not> survivingSum negativeColumns (computeHiddenColumns negativeColumns (- 16)) \<le> - 16"
proof -
  have 1: "onlyUnlocked wideColumns (set [1..<202])"
    by (simp add: onlyUnlocked_def wideColumns_def hideable_def list_all_iff)
  have "filter (\<lambda>c. index c \<notin> set [1..<202]) wideColumns
      = [\<lparr>index = 0, min_w = 46, priority = 1, lock = True\<rparr>]"
    by (simp add: wideColumns_def filter_map comp_def)
  then have 2: "survivingSum wideColumns (set [1..<202]) \<le> 100"
    by (simp add: survivingSum_def)
  from wideColumns_overflow
  have 3: "\<not> survivingSum wideColumns (computeHiddenColumns wideColumns 100) \<le> 100" by simp
  have 4: "onlyUnlocked negativeColumns {1} \<and> survivingSum negativeColumns {1} \<le> - 16"
    by (simp add: onlyUnlocked_def negativeColumns_def hideable_def survivingSum_def)
  have "computeHiddenColumns negativeColumns (- 16) = {1, 2, 3}" by code_simp
  then have 5: "\<not> survivingSum negativeColumns (computeHiddenColumns negativeColumns (- 16)) \<le> - 16"
    by (simp add: negativeColumns_def survivingSum_def)
  from 1 2 3 4 5 show ?thesis by simp
qed

section \<open>Properties of the controller\<close>

text \<open>
  The lock flag the solver is called with, and the one \<^verbatim>\<open>_buildColumns\<close> stores: the
  control column and the columns of priority 1.
\<close>

lemma refitMeta_lock:
  "m \<in> set (refitMeta c) \<Longrightarrow> lock m \<longleftrightarrow> index m = 0 \<or> priority m = 1"
  by (auto simp: refitMeta_def)

lemma buildColumn_lock:
  "lock (buildColumn opts i th) \<longleftrightarrow> index (buildColumn opts i th) = 0 \<or> priority (buildColumn opts i th) = 1"
  by (simp add: buildColumn_def Let_def)

lemma length_updAt [simp]: "length (updAt i f xs) = length xs"
  by (simp add: updAt_def)

lemma nth_updAt:
  "j < length xs \<Longrightarrow> updAt i f xs ! j = (if j = i then f (xs ! j) else xs ! j)"
  by (simp add: updAt_def nth_list_update)

lemma rowAt_setRow:
  "rowAt (setRow ref f t) ref' = (if ref' = ref then map_option f (rowAt t ref) else rowAt t ref')"
proof -
  obtain b r where ref: "ref = (b, r)" by (cases ref)
  obtain b' r' where ref': "ref' = (b', r')" by (cases ref')
  show ?thesis
    unfolding ref ref' rowAt_def setRow_def
    by (auto simp: nth_updAt)
qed

lemma headerCells_setRow [simp]: "headerCells (setRow ref f t) = headerCells t"
  by (simp add: headerCells_def setRow_def)

lemma set_dataRowRefs:
  "set (dataRowRefs t) = {ref. \<exists>row. rowAt t ref = Some row \<and> \<not> isDetails row}"
  by (auto simp: dataRowRefs_def rowAt_def)


lemma firstMarked_updAt [simp]: "firstMarked v (updAt 0 (\<lambda>x. x\<lparr>hide := v\<rparr>) cs)"
  by (cases cs) (simp_all add: firstMarked_def updAt_def)

lemma sameShape_refl [simp]: "sameShape t t"
  by (simp add: sameShape_def)

lemma sameShape_trans: "sameShape t t' \<Longrightarrow> sameShape t' t'' \<Longrightarrow> sameShape t t''"
  by (simp add: sameShape_def)

lemma sameShape_setRow:
  "(\<And>row. isDetails (f row) = isDetails row) \<Longrightarrow> sameShape t (setRow ref f t)"
  by (simp add: sameShape_def rowAt_setRow option.map_comp comp_def)

lemma markedAt_setRow_other:
  "(\<And>row. cells (f row) = cells row) \<Longrightarrow> markedAt v (setRow ref f t) ref' = markedAt v t ref'"
  by (cases "rowAt t ref") (simp_all add: markedAt_def rowAt_setRow)

lemma render_options [simp]: "options (fst (renderDetailsForRow ref H c)) = options c"
  by (simp add: renderDetailsForRow_def setWrap_def setContent_def appendChild_def Let_def
      split: option.splits rendered.splits node.splits)

lemma step_options [simp]: "options (fst (updateToggleOfRow a H ref c)) = options c"
  by (simp add: updateToggleOfRow_def Let_def split: option.splits)

lemma forRows_step_options [simp]:
  "options (fst (forRows (updateToggleOfRow a H) refs c)) = options c"
proof (induction refs arbitrary: c)
  case Nil
  then show ?case by simp
next
  case (Cons ref refs)
  obtain c' e where st: "updateToggleOfRow a H ref c = (c', e)"
    by (cases "updateToggleOfRow a H ref c")
  from st step_options [of a H ref c] have o: "options c' = options c" by simp
  show ?case
  proof (cases e)
    case None
    with st Cons.IH [of c'] o show ?thesis by simp
  next
    case (Some err)
    with st o show ?thesis by simp
  qed
qed

lemma updateTogglesVisibility_options [simp]:
  "options (fst (updateTogglesVisibility a H c)) = options c"
  unfolding updateTogglesVisibility_def Let_def
  by (simp only: forRows_step_options) simp

lemma applyVisibility_options [simp]: "options (applyVisibility H c) = options c"
  by (simp add: applyVisibility_def syncDetailsColspan_def Let_def)

lemma refit_options [simp]: "options (fst (refit initial c)) = options c"
proof -
  let ?H = "refitHiddenSet c"
  obtain c2 e where u: "updateTogglesVisibility (anyHiddenIn ?H) ?H (applyVisibility ?H c) = (c2, e)"
    by (cases "updateTogglesVisibility (anyHiddenIn ?H) ?H (applyVisibility ?H c)")
  from updateTogglesVisibility_options [of "anyHiddenIn ?H" ?H "applyVisibility ?H c"] u
  have "options c2 = options c" by simp
  with u show ?thesis
    by (cases e) (simp_all add: refit_def Let_def emit_def)
qed

lemma initOnce_options [simp]: "options (fst (initOnce c)) = options c"
proof -
  let ?c1 = "baseStyles c"
  let ?m = "mountAllBodies (buildColumns (ensureControlColumn (checkSpans ?c1)))"
  have 1: "options ?c1 = options c" by (simp add: baseStyles_def)
  have "options ?m = options ?c1"
    by (simp add: mountAllBodies_def buildColumns_def ensureControlColumn_def checkSpans_def
        Let_def split: prod.splits)
  with 1 refit_options [of True ?m] have 2: "options (fst (refit True ?m)) = options c" by simp
  obtain c2 e where r: "refit True ?m = (c2, e)" by (cases "refit True ?m")
  with 2 have "options c2 = options c" by simp
  with r 1 show ?thesis
    by (cases e) (simp_all add: initOnce_def Let_def observe_def)
qed

lemma refresh_options [simp]: "options (fst (refresh c)) = options c"
  by (simp add: refresh_def syncDetailsColspan_def remeasure_def Let_def)

lemma attached_options [simp]: "options (attached w opts) = opts"
  by (simp add: attached_def) (simp add: newController_def)

lemma toggle_options [simp]: "options (fst (toggle ref c)) = options c"
proof -
  have r: "options (fst (renderDetailsForRow ref H (c\<lparr>table := t\<rparr>))) = options c" for H t
    by simp
  have p: "options (fst (case p of (c2, None) \<Rightarrow> (g c2, None) | (c2, Some e) \<Rightarrow> (c2, Some e)))
      = options (fst p)" if "\<And>x. options (g x) = options x" for p :: "ctl \<times> error option" and g
    using that by (cases p) (auto split: option.splits)
  show ?thesis
    by (simp add: toggle_def Let_def p r emit_def split: option.splits)
qed

text \<open>
  What a rendering call leaves of the table when the renderer writes nothing to it and
  returns no cell of it: the details row gets its container written, nothing else
  changes.
\<close>

lemma setWrap_sameShape: "sameShape (table c) (table (setWrap ref w c))"
  by (simp add: setWrap_def sameShape_setRow)

lemma setContent_sameShape: "sameShape (table c) (table (setContent ref x c))"
  by (simp add: setContent_def sameShape_setRow)

lemma setWrap_markedAt [simp]:
  "markedAt v (table (setWrap ref w c)) ref' = markedAt v (table c) ref'"
  by (simp add: setWrap_def markedAt_setRow_other)

lemma setContent_markedAt [simp]:
  "markedAt v (table (setContent ref x c)) ref' = markedAt v (table c) ref'"
  by (simp add: setContent_def markedAt_setRow_other)

lemma setContent_table:
  "table c' = table c \<Longrightarrow> table (setContent ref x c') = table (setContent ref x c)"
  by (simp add: setContent_def)

lemma render_cases:
  assumes "leavesTable (options c)"
  shows "table (fst (renderDetailsForRow ref H c)) = table c \<or>
         (\<exists>w. table (fst (renderDetailsForRow ref H c)) = table (setWrap ref w c)) \<or>
         (\<exists>w x. table (fst (renderDetailsForRow ref H c))
                  = table (setContent ref x (setWrap ref w c)))"
proof (cases "detailsRender (options c)")
  case None
  then show ?thesis
    by (auto simp: renderDetailsForRow_def Let_def split: option.splits)
next
  case (Some f)
  with assms have t: "tableLeft (f row cols cs t ms) = t" for row cols cs t ms
    by (simp add: leavesTable_def)
  from Some assms have n: "returned (f row cols cs t ms) \<noteq> RNode (BodyCell r i)"
    for row cols cs t ms r i
    by (cases r) (simp add: leavesTable_def)
  have s: "table (setContent ref x (c0\<lparr>columnsMeta := ms\<rparr>)) = table (setContent ref x c0)"
    for x c0 ms
    by (rule setContent_table) simp
  show ?thesis
    using Some n
    by (auto simp: renderDetailsForRow_def Let_def t s appendChild_def
        split: option.splits rendered.splits node.splits)
qed

lemma render_sameShape:
  "leavesTable (options c) \<Longrightarrow> sameShape (table c) (table (fst (renderDetailsForRow ref H c)))"
  using render_cases [of c ref H]
  by (auto intro: setWrap_sameShape sameShape_trans [OF setWrap_sameShape setContent_sameShape])

lemma render_markedAt:
  "leavesTable (options c) \<Longrightarrow>
   markedAt v (table (fst (renderDetailsForRow ref H c))) ref' = markedAt v (table c) ref'"
  using render_cases [of c ref H] by auto


lemma step_table:
  "\<exists>c1. sameShape (table c) (table c1) \<and> options c1 = options c \<and>
     (\<forall>ref'. markedAt (\<not> a) (table c) ref' \<longrightarrow> markedAt (\<not> a) (table c1) ref') \<and>
     markedAt (\<not> a) (table c1) ref \<and>
     (fst (updateToggleOfRow a H ref c) = c1 \<or>
      fst (updateToggleOfRow a H ref c) = fst (renderDetailsForRow ref H c1))"
proof (cases "rowAt (table c) ref")
  case None
  then show ?thesis
    by (intro exI [of _ c]) (simp add: updateToggleOfRow_def markedAt_def)
next
  case (Some row)
  let ?m = "\<lambda>r. r\<lparr>cells := updAt 0 (\<lambda>x. x\<lparr>hide := \<not> a\<rparr>) (cells r)\<rparr>"
  let ?c1 = "c\<lparr>table := setRow ref ?m (table c)\<rparr>"
  have shape1: "sameShape (table c) (table ?c1)" by (simp add: sameShape_setRow)
  have keep1: "markedAt (\<not> a) (table c) ref' \<longrightarrow> markedAt (\<not> a) (table ?c1) ref'" for ref'
    by (simp add: markedAt_def rowAt_setRow Some)
  have mark1: "markedAt (\<not> a) (table ?c1) ref"
    by (simp add: markedAt_def rowAt_setRow Some)
  show ?thesis
  proof (cases "btn row")
    case None
    with Some shape1 keep1 mark1 show ?thesis
      by (intro exI [of _ ?c1]) (simp add: updateToggleOfRow_def)
  next
    case (Some b)
    let ?b = "b\<lparr>visibility := a,
      hiddenInLabel := (if a then Some (length (filter (\<lambda>m. index m \<in> H \<and> index m \<noteq> 0)
        (columnsMeta c))) else None)\<rparr>"
    let ?c2 = "?c1\<lparr>table := setRow ref (\<lambda>r. r\<lparr>btn := Some ?b\<rparr>) (table ?c1)\<rparr>"
    have "sameShape (table ?c1) (setRow ref (\<lambda>r. r\<lparr>btn := Some ?b\<rparr>) (table ?c1))"
      by (rule sameShape_setRow) simp
    then have "sameShape (table ?c1) (table ?c2)" by simp
    with shape1 have shape2: "sameShape (table c) (table ?c2)" by (rule sameShape_trans)
    have keep2: "markedAt (\<not> a) (table c) ref' \<longrightarrow> markedAt (\<not> a) (table ?c2) ref'" for ref'
      using keep1 [of ref'] by (simp add: markedAt_setRow_other)
    have mark2: "markedAt (\<not> a) (table ?c2) ref"
      using mark1 by (simp add: markedAt_setRow_other)
    have opt2: "options ?c2 = options c" by simp
    have "fst (updateToggleOfRow a H ref c) = ?c2 \<or>
          fst (updateToggleOfRow a H ref c) = fst (renderDetailsForRow ref H ?c2)"
      using \<open>rowAt (table c) ref = Some row\<close> Some
      by (simp add: updateToggleOfRow_def Let_def split: option.splits)
    with shape2 keep2 mark2 opt2 show ?thesis
      by (intro exI [of _ ?c2]) blast
  qed
qed

lemma step_sameShape:
  assumes "leavesTable (options c)"
  shows "sameShape (table c) (table (fst (updateToggleOfRow a H ref c)))"
proof -
  from step_table [of c a ref H] obtain c1 where
    s: "sameShape (table c) (table c1)" and o: "options c1 = options c" and
    f: "fst (updateToggleOfRow a H ref c) = c1 \<or>
        fst (updateToggleOfRow a H ref c) = fst (renderDetailsForRow ref H c1)" by blast
  from assms o have "leavesTable (options c1)" by simp
  from s render_sameShape [OF this, of ref H]
  have "sameShape (table c) (table (fst (renderDetailsForRow ref H c1)))"
    by (rule sameShape_trans)
  with s f show ?thesis by auto
qed

lemma step_keeps:
  assumes "leavesTable (options c)" and "markedAt (\<not> a) (table c) ref'"
  shows "markedAt (\<not> a) (table (fst (updateToggleOfRow a H ref c))) ref'"
proof -
  from step_table [of c a ref H] obtain c1 where
    k: "\<forall>r. markedAt (\<not> a) (table c) r \<longrightarrow> markedAt (\<not> a) (table c1) r" and
    o: "options c1 = options c" and
    f: "fst (updateToggleOfRow a H ref c) = c1 \<or>
        fst (updateToggleOfRow a H ref c) = fst (renderDetailsForRow ref H c1)" by blast
  from assms(1) o have l: "leavesTable (options c1)" by simp
  from k assms(2) have "markedAt (\<not> a) (table c1) ref'" by blast
  with f show ?thesis by (auto simp: render_markedAt [OF l])
qed

lemma step_marks:
  assumes "leavesTable (options c)"
  shows "markedAt (\<not> a) (table (fst (updateToggleOfRow a H ref c))) ref"
proof -
  from step_table [of c a ref H] obtain c1 where
    m: "markedAt (\<not> a) (table c1) ref" and o: "options c1 = options c" and
    f: "fst (updateToggleOfRow a H ref c) = c1 \<or>
        fst (updateToggleOfRow a H ref c) = fst (renderDetailsForRow ref H c1)" by blast
  from assms o have l: "leavesTable (options c1)" by simp
  from m f show ?thesis by (auto simp: render_markedAt [OF l])
qed

lemma forRows_step_sameShape:
  "leavesTable (options c) \<Longrightarrow>
   sameShape (table c) (table (fst (forRows (updateToggleOfRow a H) refs c)))"
proof (induction refs arbitrary: c)
  case Nil
  then show ?case by simp
next
  case (Cons ref refs)
  obtain c' e where st: "updateToggleOfRow a H ref c = (c', e)"
    by (cases "updateToggleOfRow a H ref c")
  with step_sameShape [OF Cons.prems, where a = a and H = H and ref = ref]
  have 1: "sameShape (table c) (table c')" by simp
  from st step_options [of a H ref c] Cons.prems have l: "leavesTable (options c')" by simp
  show ?case
  proof (cases e)
    case None
    with st Cons.IH [OF l] 1 show ?thesis by (auto intro: sameShape_trans)
  next
    case (Some err)
    with st 1 show ?thesis by simp
  qed
qed

lemma forRows_step_keeps:
  "leavesTable (options c) \<Longrightarrow> markedAt (\<not> a) (table c) ref' \<Longrightarrow>
   markedAt (\<not> a) (table (fst (forRows (updateToggleOfRow a H) refs c))) ref'"
proof (induction refs arbitrary: c)
  case Nil
  then show ?case by simp
next
  case (Cons ref refs)
  obtain c' e where st: "updateToggleOfRow a H ref c = (c', e)"
    by (cases "updateToggleOfRow a H ref c")
  with step_keeps [OF Cons.prems, where H = H and ref = ref]
  have 1: "markedAt (\<not> a) (table c') ref'" by simp
  from st step_options [of a H ref c] Cons.prems(1) have l: "leavesTable (options c')" by simp
  show ?case
  proof (cases e)
    case None
    with st Cons.IH [OF l 1] show ?thesis by simp
  next
    case (Some err)
    with st 1 show ?thesis by simp
  qed
qed

lemma forRows_step_marks:
  "leavesTable (options c) \<Longrightarrow>
   snd (forRows (updateToggleOfRow a H) refs c) = None \<Longrightarrow> ref' \<in> set refs \<Longrightarrow>
   markedAt (\<not> a) (table (fst (forRows (updateToggleOfRow a H) refs c))) ref'"
proof (induction refs arbitrary: c)
  case Nil
  then show ?case by simp
next
  case (Cons ref refs)
  obtain c' e where st: "updateToggleOfRow a H ref c = (c', e)"
    by (cases "updateToggleOfRow a H ref c")
  from Cons.prems(2) st have e: "e = None" by (cases e) simp_all
  with st Cons.prems(2) have rest: "snd (forRows (updateToggleOfRow a H) refs c') = None" by simp
  from st step_options [of a H ref c] Cons.prems(1) have l: "leavesTable (options c')" by simp
  show ?case
  proof (cases "ref' = ref")
    case True
    from step_marks [OF Cons.prems(1), where a = a and H = H and ref = ref] st
    have "markedAt (\<not> a) (table c') ref'" using True by simp
    from forRows_step_keeps [OF l this] st e show ?thesis by simp
  next
    case False
    with Cons.prems(3) have "ref' \<in> set refs" by simp
    from Cons.IH [OF l rest this] st e show ?thesis by simp
  qed
qed


lemma sameShape_dataRowRefs:
  assumes "sameShape t t'"
  shows "set (dataRowRefs t') = set (dataRowRefs t)"
proof -
  have eq: "(\<exists>row. rowAt u ref = Some row \<and> \<not> isDetails row)
      \<longleftrightarrow> map_option isDetails (rowAt u ref) = Some False" for u ref
    by (cases "rowAt u ref") auto
  from assms have "map_option isDetails (rowAt t' ref) = map_option isDetails (rowAt t ref)" for ref
    unfolding sameShape_def by blast
  then show ?thesis unfolding set_dataRowRefs eq by simp
qed

lemma headerCells_setHeaderCells:
  "headerCells (setHeaderCells cs t) = (if headerCells t = [] \<and> (tHead t = None \<or> tHead t = Some []) then [] else cs)"
  by (auto simp: headerCells_def setHeaderCells_def split: option.splits list.splits)

lemma updateTogglesVisibility_marks:
  assumes "leavesTable (options c)" and "updateTogglesVisibility a H c = (c', None)"
  shows "controlColumnMarked (\<not> a) (table c')"
proof -
  let ?c1 = "c\<lparr>table := setHeaderCells
      (updAt 0 (\<lambda>x. x\<lparr>hide := \<not> a\<rparr>) (headerCells (table c))) (table c)\<rparr>"
  let ?refs = "dataRowRefs (table ?c1)"
  from assms(1) have l: "leavesTable (options ?c1)" by simp
  from assms(2) have run: "forRows (updateToggleOfRow a H) ?refs ?c1 = (c', None)"
    by (simp add: updateTogglesVisibility_def)
  from forRows_step_sameShape [OF l, of a H ?refs] run
  have shape: "sameShape (table ?c1) (table c')" by simp
  have "firstMarked (\<not> a) (headerCells (table ?c1))"
    by (simp add: headerCells_setHeaderCells) (simp add: firstMarked_def)
  with shape have hdr: "firstMarked (\<not> a) (headerCells (table c'))" by (simp add: sameShape_def)
  have "markedAt (\<not> a) (table c') ref" if "ref \<in> set (dataRowRefs (table c'))" for ref
  proof -
    from that sameShape_dataRowRefs [OF shape] have "ref \<in> set ?refs" by simp
    from forRows_step_marks [OF l, of a H ?refs ref] this run show ?thesis by simp
  qed
  with hdr show ?thesis
    by (simp add: controlColumnMarked_def list_all_iff markedAt_def)
qed

text \<open>
  Claim C5 (control-column visibility rule), as the code has it.  After a refit pass
  that runs (the table has no spanning cell) and returns normally, with no renderer or
  with one that writes nothing to the table and returns no cell of it, the first header
  cell and the first cell of every data row carry the hide marker exactly when the
  hidden-set computed for that pass contains no index other than 0.
\<close>

theorem control_column_rule:
  assumes "\<not> unsupportedSpan c" and "leavesTable (options c)"
    and "refit initial c = (c', None)"
  shows "controlColumnMarked (\<not> anyHiddenIn (refitHiddenSet c)) (table c')"
proof -
  let ?H = "refitHiddenSet c"
  obtain c2 e where u: "updateTogglesVisibility (anyHiddenIn ?H) ?H (applyVisibility ?H c) = (c2, e)"
    by (cases "updateTogglesVisibility (anyHiddenIn ?H) ?H (applyVisibility ?H c)")
  with assms have e: "e = None" and c': "c' = emit (Refit initial (anyHiddenIn ?H)) c2"
    by (auto simp: refit_def Let_def split: option.splits)
  from assms(2) have "leavesTable (options (applyVisibility ?H c))" by simp
  from updateTogglesVisibility_marks [OF this] u e
  have "controlColumnMarked (\<not> anyHiddenIn ?H) (table c2)" by simp
  with c' show ?thesis by (simp add: emit_def)
qed

theorem control_column_rule_witness:
  "\<not> unsupportedSpan (fst (toggle (0, 0) (attached 500 uselessOptions))) \<and>
   leavesTable (options (fst (toggle (0, 0) (attached 500 uselessOptions)))) \<and>
   isExpanded (table (fst (toggle (0, 0) (attached 500 uselessOptions)))) (0, 0) = Some True \<and>
   refit False (fst (toggle (0, 0) (attached 500 uselessOptions)))
     = (fst (refit False (fst (toggle (0, 0) (attached 500 uselessOptions)))), None) \<and>
   anyHiddenIn (refitHiddenSet (fst (toggle (0, 0) (attached 500 uselessOptions)))) \<and>
   controlColumnMarked False
     (table (fst (refit False (fst (toggle (0, 0) (attached 500 uselessOptions))))))"
proof -
  let ?A = "fst (toggle (0, 0) (attached 500 uselessOptions))"
  have a: "\<not> unsupportedSpan ?A" by code_simp
  have l: "leavesTable (options ?A)" by (simp add: uselessOptions_def leavesTable_def)
  have x: "isExpanded (table ?A) (0, 0) = Some True" by code_simp
  have "snd (refit False ?A) = None" by code_simp
  then have b: "refit False ?A = (fst (refit False ?A), None)" by (simp add: prod_eq_iff)
  have h: "anyHiddenIn (refitHiddenSet ?A)" by code_simp
  from control_column_rule [OF a l b] a l x b h show ?thesis by simp
qed

text \<open>
  Claim C5 as it is stated, for every refit pass, fails.  The example table stands at
  500 pixels with its first row expanded, and the renderer reads the first hidden
  column; the wrapper grows to 1000 pixels, so that the pass hides no column.  The
  pass marks the header cell and the control cell of the first row, renders the open
  panel again, and the renderer throws: the pass ends with that exception, the control
  cell of the second row is left unmarked, and no \<^verbatim>\<open>refit\<close> event is emitted.
\<close>

theorem control_column_counterexample:
  "isExpanded (table widened) (0, 0) = Some True \<and>
   \<not> unsupportedSpan widened \<and>
   \<not> anyHiddenIn (refitHiddenSet widened) \<and>
   snd (refit False widened) = Some RendererThrew \<and>
   firstMarked True (headerCells (table (fst (refit False widened)))) \<and>
   dataRowRefs (table (fst (refit False widened))) = [(0, 0), (0, 2)] \<and>
   markedAt True (table (fst (refit False widened))) (0, 0) \<and>
   \<not> markedAt True (table (fst (refit False widened))) (0, 2) \<and>
   \<not> controlColumnMarked True (table (fst (refit False widened))) \<and>
   events (fst (refit False widened)) = events widened"
  by code_simp

text \<open>
  Facts about row resolution.  An argument that is not a row element acts as the
  number it is converted to, in the state its conversion leaves.
\<close>

lemma rowAtIndex_None: "rowAtIndex c n = None \<longleftrightarrow> \<not> validIndex c n"
  by (cases n) (simp_all add: rowAtIndex_def validIndex_def)

lemma rowAtIndex_isFinite [simp]:
  "(if \<not> isFinite n then None else rowAtIndex c n) = rowAtIndex c n"
  by (cases n) (simp_all add: rowAtIndex_def isFinite_def)

lemma expandRow_Other:
  "toNumber v c = (c1, r) \<Longrightarrow>
   expandRow (Other v) c =
     (case r of
        Inl e \<Rightarrow> (c1, Some e)
      | Inr n \<Rightarrow>
          (case rowAtIndex c1 n of
             None \<Rightarrow> (c1, None)
           | Some ref \<Rightarrow> if isExpanded (table c1) ref = Some False then toggle ref c1 else (c1, None)))"
  by (simp add: expandRow_def resolveDataRow_def split: sum.splits option.splits)

lemma collapseRow_Other:
  "toNumber v c = (c1, r) \<Longrightarrow>
   collapseRow (Other v) c =
     (case r of
        Inl e \<Rightarrow> (c1, Some e)
      | Inr n \<Rightarrow>
          (case rowAtIndex c1 n of
             None \<Rightarrow> (c1, None)
           | Some ref \<Rightarrow> if isExpanded (table c1) ref = Some True then toggle ref c1 else (c1, None)))"
  by (simp add: collapseRow_def resolveDataRow_def split: sum.splits option.splits)

text \<open>
  Claim C10 (row resolution), as the code has it.  An argument of \<^verbatim>\<open>expandRow\<close> or
  \<^verbatim>\<open>collapseRow\<close> that is not a row element is converted with \<^verbatim>\<open>Number\<close>.  When the
  conversion raises, both calls end with that exception.  When it yields \<^verbatim>\<open>NaN\<close>, an
  infinity, a number that is not an integer, a negative one or one not below the number
  of data rows, both calls return normally and leave the state, the event log
  included, as the conversion left it; and the conversion of a primitive value changes
  nothing.  In every other case the calls act as they do for the number the conversion
  yields.
\<close>

theorem unresolvable_row_noop:
  "(toNumber v c = (c1, Inr n) \<and> \<not> validIndex c1 n \<longrightarrow>
      expandRow (Other v) c = (c1, None) \<and> collapseRow (Other v) c = (c1, None)) \<and>
   (toNumber v c = (c1, Inl e) \<longrightarrow>
      expandRow (Other v) c = (c1, Some e) \<and> collapseRow (Other v) c = (c1, Some e)) \<and>
   (toNumber v c = (c1, Inr n) \<longrightarrow>
      expandRow (Other v) c = expandRow (Other (Primitive (PNumber n))) c1 \<and>
      collapseRow (Other v) c = collapseRow (Other (Primitive (PNumber n))) c1) \<and>
   fst (toNumber (Primitive p) c) = c"
proof -
  have n: "toNumber (Primitive (PNumber n)) c1 = (c1, Inr n)"
    by (simp add: toNumber_def primToNumber_def)
  have 1: "toNumber v c = (c1, Inr n) \<Longrightarrow> \<not> validIndex c1 n \<Longrightarrow>
      expandRow (Other v) c = (c1, None) \<and> collapseRow (Other v) c = (c1, None)"
    using rowAtIndex_None [of c1 n] by (simp add: expandRow_Other collapseRow_Other)
  have 2: "toNumber v c = (c1, Inl e) \<Longrightarrow>
      expandRow (Other v) c = (c1, Some e) \<and> collapseRow (Other v) c = (c1, Some e)"
    by (simp add: expandRow_Other collapseRow_Other)
  have 3: "toNumber v c = (c1, Inr n) \<Longrightarrow>
      expandRow (Other v) c = expandRow (Other (Primitive (PNumber n))) c1 \<and>
      collapseRow (Other v) c = collapseRow (Other (Primitive (PNumber n))) c1"
    by (simp add: expandRow_Other [OF n] collapseRow_Other [OF n] expandRow_Other
        collapseRow_Other)
  have 4: "fst (toNumber (Primitive p) c) = c" by (simp add: toNumber_def)
  from 1 2 3 4 show ?thesis by blast
qed

theorem unresolvable_row_noop_witness:
  "length (dataRowRefs (table (attached 500 defaultOptions))) = 2 \<and>
   toNumber (Primitive (PString NonNumeric)) (attached 500 defaultOptions)
     = (attached 500 defaultOptions, Inr NaN) \<and>
   \<not> validIndex (attached 500 defaultOptions) NaN \<and>
   expandRow (Other (Primitive (PString NonNumeric))) (attached 500 defaultOptions)
     = (attached 500 defaultOptions, None) \<and>
   collapseRow (Other (Primitive (PString NonNumeric))) (attached 500 defaultOptions)
     = (attached 500 defaultOptions, None) \<and>
   expandRow (Other (Primitive (PNumber NaN))) (attached 500 defaultOptions)
     = (attached 500 defaultOptions, None) \<and>
   expandRow (Other (Primitive PUndefined)) (attached 500 defaultOptions)
     = (attached 500 defaultOptions, None) \<and>
   toNumber (Primitive (PNumber (Integer 2))) (attached 500 defaultOptions)
     = (attached 500 defaultOptions, Inr (Integer 2)) \<and>
   \<not> validIndex (attached 500 defaultOptions) (Integer 2) \<and>
   expandRow (Other (Primitive (PNumber (Integer 2)))) (attached 500 defaultOptions)
     = (attached 500 defaultOptions, None) \<and>
   toNumber (Primitive PSymbol) (attached 500 defaultOptions)
     = (attached 500 defaultOptions, Inl TypeError) \<and>
   expandRow (Other (Primitive PSymbol)) (attached 500 defaultOptions)
     = (attached 500 defaultOptions, Some TypeError) \<and>
   toNumber emptyArray (attached 500 defaultOptions)
     = (attached 500 defaultOptions, Inr (Integer 0)) \<and>
   expandRow (Other emptyArray) (attached 500 defaultOptions)
     = expandRow (Other (Primitive (PNumber (Integer 0)))) (attached 500 defaultOptions)"
proof -
  let ?A = "attached 500 defaultOptions"
  have l: "length (dataRowRefs (table ?A)) = 2" by code_simp
  have a: "toNumber (Primitive (PString NonNumeric)) ?A = (?A, Inr NaN)"
    by (simp add: toNumber_def primToNumber_def)
  have a': "\<not> validIndex ?A NaN" by (simp add: validIndex_def)
  have b: "toNumber (Primitive (PNumber (Integer 2))) ?A = (?A, Inr (Integer 2))"
    by (simp add: toNumber_def primToNumber_def)
  have b': "\<not> validIndex ?A (Integer 2)" using l by (simp add: validIndex_def)
  have s: "toNumber (Primitive PSymbol) ?A = (?A, Inl TypeError)"
    by (simp add: toNumber_def primToNumber_def)
  have y: "toNumber emptyArray ?A = (?A, Inr (Integer 0))"
    by (simp add: toNumber_def primToNumber_def emptyArray_def)
  have n: "toNumber (Primitive (PNumber NaN)) ?A = (?A, Inr NaN)"
    by (simp add: toNumber_def primToNumber_def)
  have u: "toNumber (Primitive PUndefined) ?A = (?A, Inr NaN)"
    by (simp add: toNumber_def primToNumber_def)
  from unresolvable_row_noop [of "Primitive (PString NonNumeric)" ?A ?A NaN]
    unresolvable_row_noop [of "Primitive (PNumber NaN)" ?A ?A NaN]
    unresolvable_row_noop [of "Primitive PUndefined" ?A ?A NaN]
    n u
    unresolvable_row_noop [of "Primitive (PNumber (Integer 2))" ?A ?A "Integer 2"]
    unresolvable_row_noop [of "Primitive PSymbol" ?A ?A _ TypeError]
    unresolvable_row_noop [of emptyArray ?A ?A "Integer 0"]
    l a a' b b' s y
  show ?thesis by simp
qed

text \<open>
  Claim C10 as it is stated fails for arguments that are no numbers and that
  \<^verbatim>\<open>Number\<close> turns into the index 0: \<^verbatim>\<open>null\<close>, \<^verbatim>\<open>false\<close>, the empty string and the empty
  array expand the first row of the example table and emit \<^verbatim>\<open>expand\<close> and \<^verbatim>\<open>toggle\<close>.
  And it fails for a Symbol, for which \<^verbatim>\<open>Number\<close> raises a \<^verbatim>\<open>TypeError\<close> that leaves
  \<^verbatim>\<open>expandRow\<close> and \<^verbatim>\<open>collapseRow\<close>.
\<close>

theorem coerced_argument_counterexample:
  "isExpanded (table (attached 500 defaultOptions)) (0, 0) = Some False \<and>
   isExpanded (table (fst (expandRow (Other (Primitive PNull)) (attached 500 defaultOptions))))
     (0, 0) = Some True \<and>
   events (fst (expandRow (Other (Primitive PNull)) (attached 500 defaultOptions)))
     = events (attached 500 defaultOptions) @ [Expand (0, 0), Toggle (0, 0) True] \<and>
   events (fst (expandRow (Other (Primitive (PBoolean False))) (attached 500 defaultOptions)))
     = events (attached 500 defaultOptions) @ [Expand (0, 0), Toggle (0, 0) True] \<and>
   events (fst (expandRow (Other (Primitive (PString Blank))) (attached 500 defaultOptions)))
     = events (attached 500 defaultOptions) @ [Expand (0, 0), Toggle (0, 0) True] \<and>
   events (fst (expandRow (Other emptyArray) (attached 500 defaultOptions)))
     = events (attached 500 defaultOptions) @ [Expand (0, 0), Toggle (0, 0) True] \<and>
   snd (expandRow (Other (Primitive PSymbol)) (attached 500 defaultOptions)) = Some TypeError \<and>
   snd (collapseRow (Other (Primitive PSymbol)) (attached 500 defaultOptions)) = Some TypeError"
  by code_simp


lemma initOnce_fails:
  assumes "tHead t = None \<or> tHead t = Some [] \<or> tBodies t = []"
  shows "\<exists>e. (e = HeadRequired \<or> e = BodyRequired) \<and>
    initOnce (newController t opts)
      = ((newController t opts)\<lparr>coreStyles := True, table := styledOnly opts t\<rparr>, Some e)"
proof -
  let ?c1 = "baseStyles (newController t opts)"
  have c1: "?c1 = (newController t opts)\<lparr>coreStyles := True, table := styledOnly opts t\<rparr>"
    by (simp add: baseStyles_def newController_def styledOnly_def)
  have th: "tHead (table ?c1) = tHead t" and tb: "tBodies (table ?c1) = tBodies t"
    by (simp_all add: baseStyles_def newController_def)
  show ?thesis
  proof (cases "tHead t = None \<or> tHead t = Some []")
    case True
    with th have "initOnce (newController t opts) = (?c1, Some HeadRequired)"
      by (auto simp: initOnce_def Let_def)
    with c1 show ?thesis by simp
  next
    case False
    with assms have "tBodies t = []" by blast
    with False th tb have "initOnce (newController t opts) = (?c1, Some BodyRequired)"
      by (auto simp: initOnce_def Let_def split: option.splits)
    with c1 show ?thesis by simp
  qed
qed

text \<open>
  Claim C8 (attachment failure), as the code has it.  When \<^verbatim>\<open>set\<close> is called for a
  table without a registered controller that has no header, a header without rows or no
  body, the call ends with the error for the header or for the body, the registry and
  every other table are unchanged, and the table is as before except for what
  \<^verbatim>\<open>_initOnce\<close> writes first: the root class and, where they were unset, the inline
  width and table layout.
\<close>

theorem failed_attach_effects:
  assumes "elements pg el = Some t"
    and "registry pg el = None"
    and "tHead t = None \<or> tHead t = Some [] \<or> tBodies t = []"
  shows "\<exists>e. (e = HeadRequired \<or> e = BodyRequired) \<and>
    set_table (TableElement el) perTable pg
      = (pg\<lparr>elements := (elements pg)(el \<mapsto> styledOnly (perTable (globalOptions pg)) t)\<rparr>,
         Some e)"
proof -
  from initOnce_fails [OF assms(3), of "perTable (globalOptions pg)"]
  obtain e where e: "e = HeadRequired \<or> e = BodyRequired"
    and i: "initOnce (newController t (perTable (globalOptions pg)))
      = ((newController t (perTable (globalOptions pg)))
           \<lparr>coreStyles := True, table := styledOnly (perTable (globalOptions pg)) t\<rparr>, Some e)"
    by blast
  from assms(1,2) i have "set_table (TableElement el) perTable pg
      = (pg\<lparr>elements := (elements pg)(el \<mapsto> styledOnly (perTable (globalOptions pg)) t)\<rparr>,
         Some e)"
    by (simp add: set_table_def)
  with e show ?thesis by blast
qed

theorem failed_attach_effects_witness:
  "elements headlessPage 7 = Some ((exampleTable 500)\<lparr>tHead := None\<rparr>) \<and>
   registry headlessPage 7 = None \<and>
   snd (set_table (TableElement 7) id headlessPage) = Some HeadRequired \<and>
   registry (fst (set_table (TableElement 7) id headlessPage)) 7 = None \<and>
   elements (fst (set_table (TableElement 7) id headlessPage)) 7
     = Some (styledOnly defaultOptions ((exampleTable 500)\<lparr>tHead := None\<rparr>))"
proof -
  have a: "elements headlessPage 7 = Some ((exampleTable 500)\<lparr>tHead := None\<rparr>)"
    and b: "registry headlessPage 7 = None"
    and g: "globalOptions headlessPage = defaultOptions"
    by (simp_all add: headlessPage_def)
  have t: "tHead ((exampleTable 500)\<lparr>tHead := None\<rparr>) = None" by simp
  have nb: "tBodies ((exampleTable 500)\<lparr>tHead := None\<rparr>) \<noteq> []" by (simp add: exampleTable_def)
  from failed_attach_effects [OF a b, of id] t
  obtain e where "e = HeadRequired \<or> e = BodyRequired"
    and s: "set_table (TableElement 7) id headlessPage
      = (headlessPage\<lparr>elements := (elements headlessPage)
           (7 \<mapsto> styledOnly defaultOptions ((exampleTable 500)\<lparr>tHead := None\<rparr>))\<rparr>, Some e)"
    by (auto simp: g)
  have "snd (set_table (TableElement 7) id headlessPage) = Some HeadRequired"
    using a b by (simp add: set_table_def initOnce_def Let_def baseStyles_def newController_def g)
  with s a b show ?thesis by simp
qed

text \<open>
  Claim C8 as it is stated fails on \<open>headlessPage\<close>: the failed call leaves the root
  class and the inline width on the table.  And on \<open>staleHeadlessPage\<close>, where the
  table already has its controller, \<^verbatim>\<open>set\<close> raises nothing.
\<close>

theorem failed_attach_counterexample:
  "snd (set_table (TableElement 7) id headlessPage) = Some HeadRequired \<and>
   hasRoot (the (elements headlessPage 7)) = False \<and>
   styleWidth (the (elements headlessPage 7)) = [] \<and>
   hasRoot (the (elements (fst (set_table (TableElement 7) id headlessPage)) 7)) = True \<and>
   styleWidth (the (elements (fst (set_table (TableElement 7) id headlessPage)) 7)) = ''100%'' \<and>
   elements (fst (set_table (TableElement 7) id headlessPage)) 7 \<noteq> elements headlessPage 7 \<and>
   tHead (the (elements staleHeadlessPage 7)) = None \<and>
   snd (set_table (TableElement 7) id staleHeadlessPage) = None"
proof -
  have "snd (set_table (TableElement 7) id staleHeadlessPage) = None" by code_simp
  then show ?thesis
    by (simp add: set_table_def headlessPage_def initOnce_def Let_def baseStyles_def
        newController_def exampleTable_def defaultOptions_def)
       (simp add: staleHeadlessPage_def)
qed


lemma updAt_updAt: "updAt i f (updAt i g xs) = updAt i (\<lambda>y. f (g y)) xs"
  by (simp add: updAt_def)

lemma setRow_setRow: "setRow r f (setRow r g t) = setRow r (\<lambda>y. f (g y)) t"
  by (simp add: setRow_def updAt_updAt)

lemma columnsMeta_setWrap [simp]: "columnsMeta (setWrap ref w c) = columnsMeta c"
  by (simp add: setWrap_def)

lemma setContent_setWrap:
  "setContent ref x (setWrap ref w c) = setWrap ref (w\<lparr>content := x\<rparr>) c"
  by (simp add: setContent_def setWrap_def setRow_setRow)

lemma thLabel_setRow [simp]: "thLabel (setRow r f t) i = thLabel t i"
  unfolding thLabel_def headerCells_setRow ..

lemma defaultItems_cong:
  "table c' = setRow r f (table c) \<Longrightarrow> columnsMeta c' = columnsMeta c \<Longrightarrow>
   defaultItems c' cs H = defaultItems c cs H"
  by (simp add: defaultItems_def)

text \<open>
  Claim C7 (failures of the caller's renderer), as the code has it.  For a row with a
  details row and its inner container, \<open>out\<close> being what the call of
  \<^verbatim>\<open>detailsRender\<close> does: when it returns a value that is neither a node nor a string and
  has written neither to the table nor to the column objects, the rendering call
  returns normally and the panel holds the default list, its values read from the
  \<^verbatim>\<open>cells\<close> array as the renderer left it; when it has left that array alone too, the
  table is the one the call leaves with no renderer configured.  When the renderer
  throws, the call ends with that exception, the panel emptied and labelled; and when
  it returns a node the container cannot take, the call ends with the
  \<^verbatim>\<open>HierarchyRequestError\<close> of \<^verbatim>\<open>appendChild\<close>, the panel emptied and labelled.
\<close>

theorem renderer_unusable_value_falls_back:
  assumes "rowAt (table c) ref = Some row"
    and "rowAt (table c) (fst ref, Suc (snd ref)) = Some detailsRow"
    and "wrap detailsRow = Some w"
    and "detailsRender (options c) = Some f"
    and "c0 = setWrap ref (emptyPanel c row H) c"
    and "out = f row (filter (\<lambda>m. index m \<in> H \<and> index m \<noteq> 0) (columnsMeta c)) (cells row)
                 (table c0) (columnsMeta c)"
  shows "(returned out = ROther \<and> tableLeft out = table c0 \<and> columnsLeft out = columnsMeta c \<longrightarrow>
           renderDetailsForRow ref H c
             = (setWrap ref ((emptyPanel c row H)\<lparr>content :=
                                CItems (defaultItems c (cellsLeft out) H)\<rparr>) c, None)) \<and>
         (returned out = ROther \<and> tableLeft out = table c0 \<and> columnsLeft out = columnsMeta c \<and>
          cellsLeft out = cells row \<longrightarrow>
           table (fst (renderDetailsForRow ref H c))
             = table (fst (renderDetailsForRow ref H
                            (c\<lparr>options := (options c)\<lparr>detailsRender := None\<rparr>\<rparr>)))) \<and>
         (returned out = RThrows \<longrightarrow>
           renderDetailsForRow ref H c
             = (c0\<lparr>table := tableLeft out, columnsMeta := columnsLeft out\<rparr>,
                Some RendererThrew)) \<and>
         (returned out = RNode Unappendable \<longrightarrow>
           renderDetailsForRow ref H c
             = (c0\<lparr>table := tableLeft out, columnsMeta := columnsLeft out\<rparr>,
                Some HierarchyRequestError))"
proof -
  let ?n = "c\<lparr>options := (options c)\<lparr>detailsRender := None\<rparr>\<rparr>"
  have cm: "columnsMeta c0 = columnsMeta c" using assms(5) by simp
  have same: "s\<lparr>table := table s, columnsMeta := columnsMeta s\<rparr> = s" for s :: ctl by simp
  have items: "defaultItems c0 cs H = defaultItems c cs H" for cs
    unfolding assms(5)
    by (rule defaultItems_cong [where r = "(fst ref, Suc (snd ref))"
          and f = "\<lambda>d. d\<lparr>wrap := Some (emptyPanel c row H)\<rparr>"])
       (simp_all add: setWrap_def)
  have 1: "renderDetailsForRow ref H c
        = (setWrap ref ((emptyPanel c row H)\<lparr>content :=
                           CItems (defaultItems c (cellsLeft out) H)\<rparr>) c, None)"
    if "returned out = ROther" and "tableLeft out = table c0" and "columnsLeft out = columnsMeta c"
  proof -
    from that cm have "c0\<lparr>table := tableLeft out, columnsMeta := columnsLeft out\<rparr> = c0"
      by simp
    with assms that(1) have "renderDetailsForRow ref H c
        = (setContent ref (CItems (defaultItems c0 (cellsLeft out) H)) c0, None)"
      by (simp add: renderDetailsForRow_def Let_def cm)
    then show ?thesis
      unfolding items unfolding assms(5) by (simp add: setContent_setWrap)
  qed
  have e: "emptyPanel ?n row H = emptyPanel c row H" by (simp add: emptyPanel_def)
  have "defaultItems (setWrap ref (emptyPanel c row H) ?n) cs H = defaultItems c cs H" for cs
    by (rule defaultItems_cong [where r = "(fst ref, Suc (snd ref))"
          and f = "\<lambda>d. d\<lparr>wrap := Some (emptyPanel c row H)\<rparr>"])
       (simp_all add: setWrap_def)
  with assms(1-3) e
  have 2: "renderDetailsForRow ref H ?n
      = (setWrap ref ((emptyPanel c row H)\<lparr>content :=
                         CItems (defaultItems c (cells row) H)\<rparr>) ?n, None)"
    by (simp add: renderDetailsForRow_def Let_def setContent_setWrap)
  from 1 2 have 3: "returned out = ROther \<Longrightarrow> tableLeft out = table c0 \<Longrightarrow>
      columnsLeft out = columnsMeta c \<Longrightarrow> cellsLeft out = cells row \<Longrightarrow>
      table (fst (renderDetailsForRow ref H c)) = table (fst (renderDetailsForRow ref H ?n))"
    by (simp add: setWrap_def)
  from assms have 4: "returned out = RThrows \<Longrightarrow>
      renderDetailsForRow ref H c
        = (c0\<lparr>table := tableLeft out, columnsMeta := columnsLeft out\<rparr>, Some RendererThrew)"
    by (simp add: renderDetailsForRow_def Let_def cm)
  from assms have 5: "returned out = RNode Unappendable \<Longrightarrow>
      renderDetailsForRow ref H c
        = (c0\<lparr>table := tableLeft out, columnsMeta := columnsLeft out\<rparr>,
           Some HierarchyRequestError)"
    by (simp add: renderDetailsForRow_def Let_def appendChild_def cm)
  from 1 3 4 5 show ?thesis by blast
qed

theorem renderer_unusable_value_falls_back_witness:
  "renderDetailsForRow (0, 0) {3, 4} (attached 500 uselessOptions)
     = (setWrap (0, 0)
          ((emptyPanel (attached 500 uselessOptions)
              (the (rowAt (table (attached 500 uselessOptions)) (0, 0))) {3, 4})
           \<lparr>content := CItems (defaultItems (attached 500 uselessOptions)
               (cells (the (rowAt (table (attached 500 uselessOptions)) (0, 0)))) {3, 4})\<rparr>)
          (attached 500 uselessOptions), None) \<and>
   defaultItems (attached 500 uselessOptions)
       (cells (the (rowAt (table (attached 500 uselessOptions)) (0, 0)))) {3, 4}
     = [(''Status: '', ''Active''), (''Budget: '', ''1200'')] \<and>
   table (fst (renderDetailsForRow (0, 0) {3, 4} (attached 500 uselessOptions)))
     = table (fst (renderDetailsForRow (0, 0) {3, 4}
                ((attached 500 uselessOptions)
                   \<lparr>options := (options (attached 500 uselessOptions))\<lparr>detailsRender := None\<rparr>\<rparr>))) \<and>
   snd (toggle (0, 0) (attached 500 uselessOptions)) = None \<and>
   snd (refit False (fst (toggle (0, 0) (attached 500 uselessOptions)))) = None"
proof -
  let ?A = "attached 500 uselessOptions"
  let ?row = "the (rowAt (table ?A) (0, 0))"
  let ?d = "the (rowAt (table ?A) (0, 1))"
  let ?f = "\<lambda>(row::tr) (cols::column list) (cs::cell list) (t::table) (ms::column list).
      \<lparr>returned = ROther, cellsLeft = cs, tableLeft = t, columnsLeft = ms\<rparr>"
  let ?c0 = "setWrap (0, 0) (emptyPanel ?A ?row {3, 4}) ?A"
  let ?out = "?f ?row (filter (\<lambda>m. index m \<in> {3, 4} \<and> index m \<noteq> 0) (columnsMeta ?A))
      (cells ?row) (table ?c0) (columnsMeta ?A)"
  have "rowAt (table ?A) (0, 0) \<noteq> None" by code_simp
  then have a: "rowAt (table ?A) (0, 0) = Some ?row" by simp
  have "rowAt (table ?A) (0, 1) \<noteq> None" by code_simp
  then have b: "rowAt (table ?A) (fst (0::nat, 0::nat), Suc (snd (0::nat, 0::nat))) = Some ?d" by simp
  have "wrap ?d \<noteq> None" by code_simp
  then have w: "wrap ?d = Some (the (wrap ?d))" by simp
  have o: "options ?A = uselessOptions" by simp
  then have r: "detailsRender (options ?A) = Some ?f"
    by (simp add: uselessOptions_def)
  have i: "defaultItems ?A (cells ?row) {3, 4}
      = [(''Status: '', ''Active''), (''Budget: '', ''1200'')]" by code_simp
  have t: "snd (toggle (0, 0) ?A) = None" by code_simp
  have p: "snd (refit False (fst (toggle (0, 0) ?A))) = None" by code_simp
  note T = renderer_unusable_value_falls_back [OF a b w r refl refl, of "{3, 4}"]
  have ro: "returned ?out = ROther" by simp
  have tl: "tableLeft ?out = table ?c0" by simp
  have ml: "columnsLeft ?out = columnsMeta ?A" by simp
  have cl: "cellsLeft ?out = cells ?row" by simp
  from T ro tl ml have "renderDetailsForRow (0, 0) {3, 4} ?A
      = (setWrap (0, 0) ((emptyPanel ?A ?row {3, 4})
           \<lparr>content := CItems (defaultItems ?A (cellsLeft ?out) {3, 4})\<rparr>) ?A, None)"
    by blast
  then have c1: "renderDetailsForRow (0, 0) {3, 4} ?A
      = (setWrap (0, 0) ((emptyPanel ?A ?row {3, 4})
           \<lparr>content := CItems (defaultItems ?A (cells ?row) {3, 4})\<rparr>) ?A, None)"
    by simp
  from T ro tl ml cl have c2: "table (fst (renderDetailsForRow (0, 0) {3, 4} ?A))
      = table (fst (renderDetailsForRow (0, 0) {3, 4}
                 (?A\<lparr>options := (options ?A)\<lparr>detailsRender := None\<rparr>\<rparr>)))"
    by blast
  show ?thesis by (intro conjI c1 i c2 t p)
qed

text \<open>
  Claim C7 as it is stated fails.  The exception of a renderer that throws leaves
  \<^verbatim>\<open>_renderDetailsForRow\<close>, leaves \<^verbatim>\<open>toggle\<close> (which emits nothing then), and leaves
  the refit pass over a table with an expanded row; so does the exception
  \<^verbatim>\<open>appendChild\<close> raises for a node it cannot take.  And after a renderer that empties
  the \<^verbatim>\<open>cells\<close> array and returns nothing, the panel is not the default rendering: its
  values are empty.
\<close>

theorem renderer_throws_counterexample:
  "snd (renderDetailsForRow (0, 0) {3, 4} (attached 500 throwingOptions)) = Some RendererThrew \<and>
   snd (toggle (0, 0) (attached 500 throwingOptions)) = Some RendererThrew \<and>
   events (fst (toggle (0, 0) (attached 500 throwingOptions)))
     = events (attached 500 throwingOptions) \<and>
   snd (refit False
          ((fst (toggle (0, 0) (attached 500 defaultOptions)))\<lparr>options := throwingOptions\<rparr>))
     = Some RendererThrew \<and>
   snd (toggle (0, 0) (attached 500 unappendableOptions)) = Some HierarchyRequestError \<and>
   events (fst (toggle (0, 0) (attached 500 unappendableOptions)))
     = events (attached 500 unappendableOptions) \<and>
   snd (refit False
          ((fst (toggle (0, 0) (attached 500 defaultOptions)))\<lparr>options := unappendableOptions\<rparr>))
     = Some HierarchyRequestError \<and>
   panelContent (table (fst (toggle (0, 0) (attached 500 defaultOptions)))) (0, 0)
     = Some (CItems [(''Status: '', ''Active''), (''Budget: '', ''1200'')]) \<and>
   snd (toggle (0, 0) (attached 500 emptyingOptions)) = None \<and>
   panelContent (table (fst (toggle (0, 0) (attached 500 emptyingOptions)))) (0, 0)
     = Some (CItems [(''Status: '', []), (''Budget: '', [])])"
  by code_simp


text \<open>
  Claim C6 (toggling with no hidden column is a no-op) does not hold of the code.  The
  example table at 1000 pixels has no hidden column (the header reads back the control
  index 0 only); \<^verbatim>\<open>toggle\<close> and \<^verbatim>\<open>expandRow\<close> expand the first row all the same and
  emit \<^verbatim>\<open>expand\<close> and \<^verbatim>\<open>toggle\<close>, while \<^verbatim>\<open>expandAll\<close>, which tests for a hidden
  column, does nothing.
\<close>

theorem toggle_with_nothing_hidden:
  "refitHiddenSet (attached 1000 defaultOptions) = {} \<and>
   headerHiddenSet (attached 1000 defaultOptions) = {0} \<and>
   isExpanded (table (attached 1000 defaultOptions)) (0, 0) = Some False \<and>
   snd (toggle (0, 0) (attached 1000 defaultOptions)) = None \<and>
   isExpanded (table (fst (toggle (0, 0) (attached 1000 defaultOptions)))) (0, 0) = Some True \<and>
   map_option hiddenAttr (rowAt (table (fst (toggle (0, 0) (attached 1000 defaultOptions)))) (0, 1))
     = Some False \<and>
   events (fst (toggle (0, 0) (attached 1000 defaultOptions)))
     = events (attached 1000 defaultOptions) @ [Expand (0, 0), Toggle (0, 0) True] \<and>
   events (fst (expandRow (Other (Primitive (PNumber (Integer 0)))) (attached 1000 defaultOptions)))
     = events (attached 1000 defaultOptions) @ [Expand (0, 0), Toggle (0, 0) True] \<and>
   events (fst (expandAll (attached 1000 defaultOptions))) = events (attached 1000 defaultOptions)"
  by code_simp

text \<open>
  Claim C9 (destroy is idempotent) does not hold of the code.  The example table gets
  its control column from the controller; the first \<^verbatim>\<open>destroy\<close> restores header and
  bodies, the second one deletes the first column of the table and emits \<^verbatim>\<open>destroy\<close>
  once more.
\<close>

theorem destroy_twice_removes_a_column:
  "insertedControl (attached 1000 defaultOptions) \<and>
   headerCells (table (destroy (attached 1000 defaultOptions))) = headerCells (exampleTable 1000) \<and>
   tBodies (table (destroy (attached 1000 defaultOptions))) = tBodies (exampleTable 1000) \<and>
   map textContent (headerCells (table (destroy (destroy (attached 1000 defaultOptions)))))
     = [''Client'', ''Status'', ''Budget''] \<and>
   map (map (map textContent \<circ> cells))
       (tBodies (table (destroy (destroy (attached 1000 defaultOptions)))))
     = [[[''Acme'', ''Active'', ''1200''], [''Globex'', ''Paused'', ''800'']]] \<and>
   events (destroy (destroy (attached 1000 defaultOptions)))
     = events (destroy (attached 1000 defaultOptions)) @ [Destroy]"
  by code_simp

end
